theory Spec2Isabelle
  imports Complex_Main
begin

section \<open>Conventions of the embedding\<close>

text \<open>
  The pipeline is TypeScript. Its values are embedded as follows.
  \<^item> A JavaScript string is a \<open>string\<close>; one \<open>char\<close> stands for one code unit below 256.
    On that range \<open>toLowerCase\<close> changes an ASCII letter only into an ASCII letter and a
    non-ASCII unit never into an ASCII one, and every keyword seed, trigger phrase and
    pattern of the repository is ASCII, so lower-casing is modelled on \<open>A..Z\<close> only.
  \<^item> A JavaScript number that carries a share, a weight, a score or a confidence is a
    \<open>rat\<close>, the rational a finite double denotes. In the classifier and the aggregators
    the arithmetic is read exactly, without rounding; the properties stated of them either
    do not depend on the low-order bits or carry a tolerance. In the dominance engine, whose
    flag compares two scores at a threshold, every operation rounds as IEEE 754 double
    precision does (\<open>round_double\<close>).
    Epoch milliseconds and character offsets are \<open>int\<close> and \<open>nat\<close>.
  \<^item> A \<open>Map\<close> whose iteration order the source relies on is an association list in
    insertion order.
  \<^item> \<open>Array.prototype.sort\<close> is stable; it is \<open>sort_key\<close>, with the key negated where
    the comparator sorts descending.
  \<^item> The wall clock (\<open>new Date()\<close>, \<open>Date.now()\<close>) is a parameter, and so is the reading
    of a timestamp (\<open>new Date(s).getTime()\<close>), taken for timestamps that parse.
  \<^item> A thrown exception is a value: a function that can throw returns \<open>js_error + 'a\<close>.
\<close>

section \<open>Strings\<close>

definition lower_char :: "char \<Rightarrow> char" where
  "lower_char c = (let n = (of_char c :: nat) in if 65 \<le> n \<and> n \<le> 90 then char_of (n + 32) else c)"

definition toLowerCase :: "string \<Rightarrow> string" where
  "toLowerCase s = map lower_char s"

text \<open>\<open>\s\<close> of a regular expression and the white space of \<open>trim\<close>, below 256.\<close>

definition is_space :: "char \<Rightarrow> bool" where
  "is_space c = (let n = (of_char c :: nat) in (9 \<le> n \<and> n \<le> 13) \<or> n = 32 \<or> n = 160)"

text \<open>\<open>\w\<close> of a regular expression.\<close>

definition is_word :: "char \<Rightarrow> bool" where
  "is_word c = (let n = (of_char c :: nat) in
     (48 \<le> n \<and> n \<le> 57) \<or> (65 \<le> n \<and> n \<le> 90) \<or> n = 95 \<or> (97 \<le> n \<and> n \<le> 122))"

fun starts_with :: "string \<Rightarrow> string \<Rightarrow> bool" where
  "starts_with s [] = True"
| "starts_with [] (p # ps) = False"
| "starts_with (c # cs) (p # ps) = (c = p \<and> starts_with cs ps)"

text \<open>\<open>s.includes(p)\<close>.\<close>

fun str_includes :: "string \<Rightarrow> string \<Rightarrow> bool" where
  "str_includes [] p = (p = [])"
| "str_includes (c # cs) p = (starts_with (c # cs) p \<or> str_includes cs p)"

text \<open>\<open>xs.join(sep)\<close>.\<close>

fun join :: "string \<Rightarrow> string list \<Rightarrow> string" where
  "join sep [] = []"
| "join sep [x] = x"
| "join sep (x # y # ys) = x @ sep @ join sep (y # ys)"

text \<open>\<open>s.trim()\<close>.\<close>

definition trim :: "string \<Rightarrow> string" where
  "trim s = rev (dropWhile is_space (rev (dropWhile is_space s)))"

text \<open>
  \<open>s.split(/\s+/)\<close>: the pieces between the maximal runs of white space. The second
  argument collects the piece being read, reversed.
\<close>

fun split_ws :: "string \<Rightarrow> string \<Rightarrow> string list" where
  "split_ws cur [] = [rev cur]"
| "split_ws cur (c # cs) =
     (if is_space c then
        (case cs of
           [] \<Rightarrow> [rev cur, []]
         | d # ds \<Rightarrow> if is_space d then split_ws cur (d # ds) else rev cur # split_ws [] (d # ds))
      else split_ws (c # cur) cs)"

section \<open>The respect taxonomy (taxonomy.ts)\<close>

record PipelineRespect =
  pr_id :: string
  pr_label :: string
  pr_judgement_question :: string
  pr_keyword_seeds :: "string list"

definition PIPELINE_RESPECTS :: "PipelineRespect list" where
  "PIPELINE_RESPECTS = [
    \<lparr>pr_id = ''security_border'', pr_label = ''Security / Border control'',
     pr_judgement_question = ''Is migration primarily a threat to be controlled?'',
     pr_keyword_seeds = [''stop'', ''deter'', ''secure'', ''crackdown'', ''illegal'', ''enforcement'',
       ''threat'', ''gangs'', ''border'', ''boats'', ''crossings'', ''stop the boats'', ''tougher measures'',
       ''deterrence'', ''intercept'', ''trafficker'', ''smuggler'', ''channel crossing'', ''border force'']\<rparr>,
    \<lparr>pr_id = ''humanitarian'', pr_label = ''Humanitarian / Moral responsibility'',
     pr_judgement_question = ''Are migrants primarily vulnerable persons owed protection?'',
     pr_keyword_seeds = [''dignity'', ''safety'', ''refuge'', ''compassion'', ''harm'', ''rescue'', ''welfare'',
       ''humanity'', ''protect'', ''vulnerable'', ''safe routes'', ''safe passage'', ''deaths at sea'',
       ''drowning'', ''charity'', ''refugee'', ''asylum seeker'', ''human rights'']\<rparr>,
    \<lparr>pr_id = ''rule_of_law'', pr_label = ''Rule of law / Legal process'',
     pr_judgement_question = ''Must migration be governed strictly by legal process and rights?'',
     pr_keyword_seeds = [''due process'', ''lawful'', ''ECHR'', ''HRA'', ''courts'', ''obligations'',
       ''procedures'', ''legal'', ''convention'', ''rights'', ''legal challenge'', ''judicial review'',
       ''ruling'', ''appeal'', ''human rights act'', ''court blocks'', ''lawful route'']\<rparr>,
    \<lparr>pr_id = ''sovereignty_control'', pr_label = ''Sovereignty / Democratic control'',
     pr_judgement_question = ''Who has the authority to decide migration policy?'',
     pr_keyword_seeds = [''control'', ''sovereignty'', ''mandate'', ''Parliament'', ''external constraint'',
       ''take back control'', ''take back control'', ''uk border'', ''british border'', ''national border'']\<rparr>,
    \<lparr>pr_id = ''capacity_delivery'', pr_label = ''Capacity / System performance'',
     pr_judgement_question = ''Is the problem state capacity and system failure?'',
     pr_keyword_seeds = [''backlog'', ''processing'', ''hotels'', ''inefficiency'', ''cost'', ''capacity'',
       ''system'', ''delivery'', ''asylum backlog'', ''processing delays'', ''hotel accommodation'',
       ''clearing the backlog'', ''casework'']\<rparr>,
    \<lparr>pr_id = ''economy_prosperity'', pr_label = ''Economy / Prosperity'',
     pr_judgement_question = ''Is migration primarily an economic input/output issue?'',
     pr_keyword_seeds = [''workforce'', ''productivity'', ''skills'', ''growth'', ''pressure on services'',
       ''economy'', ''jobs'']\<rparr>,
    \<lparr>pr_id = ''fairness_distribution'', pr_label = ''Fairness / Distribution'',
     pr_judgement_question = ''Is the issue fair treatment and distribution of resources?'',
     pr_keyword_seeds = [''fair'', ''fairness'', ''distribution'', ''equity'', ''access'', ''disadvantaged'']\<rparr>,
    \<lparr>pr_id = ''stability_risk'', pr_label = ''Stability / Risk'',
     pr_judgement_question = ''Is the issue stability and risk management?'',
     pr_keyword_seeds = [''stability'', ''risk'', ''uncertainty'', ''volatility'', ''crisis'']\<rparr>,
    \<lparr>pr_id = ''environment_sustainability'', pr_label = ''Environment / Sustainability'',
     pr_judgement_question = ''Is the issue environmental or sustainability impact?'',
     pr_keyword_seeds = [''environment'', ''climate'', ''sustainability'', ''green'']\<rparr>,
    \<lparr>pr_id = ''national_interest_global'', pr_label = ''National interest / Global'',
     pr_judgement_question = ''Is the issue national interest and global standing?'',
     pr_keyword_seeds = [''national interest'', ''global'', ''international'', ''reputation'', ''standing'']\<rparr>]"

definition PIPELINE_RESPECT_IDS :: "string list" where
  "PIPELINE_RESPECT_IDS = map pr_id PIPELINE_RESPECTS"

section \<open>The keyword classifier (classifier.ts)\<close>

definition tokenize :: "string \<Rightarrow> string list" where
  "tokenize text =
     filter (\<lambda>t. length t > 1)
       (split_ws [] (map (\<lambda>c. if is_word c \<or> is_space c then c else CHR '' '') (toLowerCase text)))"

record RespectScore =
  rs_respect_id :: string
  rs_score :: rat
  rs_matched :: "string list"

text \<open>The body of the loop over the seeds of one respect: the state is (score, matched).\<close>

definition score_seed :: "string list \<Rightarrow> string \<Rightarrow> rat \<times> string list \<Rightarrow> string \<Rightarrow> rat \<times> string list" where
  "score_seed tokens text st seed =
     (let seedNorm = toLowerCase seed;
          st1 = (if list_ex (\<lambda>t. str_includes t seedNorm \<or> str_includes seedNorm t) tokens
                 then (fst st + 1, snd st @ [seed]) else st);
          st2 = (if str_includes (toLowerCase text) (toLowerCase seed)
                 then (fst st1 + 1 / 2, if seed \<in> set (snd st1) then snd st1 else snd st1 @ [seed])
                 else st1)
      in st2)"

definition score_respect :: "string list \<Rightarrow> string \<Rightarrow> PipelineRespect \<Rightarrow> RespectScore" where
  "score_respect tokens text r =
     (let st = foldl (score_seed tokens text) (0, []) (pr_keyword_seeds r)
      in \<lparr>rs_respect_id = pr_id r, rs_score = fst st, rs_matched = snd st\<rparr>)"

definition scoreText :: "string \<Rightarrow> RespectScore list" where
  "scoreText text =
     (let tokens = tokenize text;
          scores = map (score_respect tokens text) PIPELINE_RESPECTS
      in sort_key (\<lambda>s. - rs_score s) (filter (\<lambda>s. rs_score s > 0) scores))"

definition normalizeConfidence :: "rat \<Rightarrow> rat \<Rightarrow> rat" where
  "normalizeConfidence score maxScore =
     (if maxScore \<le> 0 then 1 / 2
      else let raw = score / max maxScore 3 in min (95 / 100) (max (3 / 10) raw))"

datatype MediaType = Broadcast | Broadsheet | Tabloid | Online | Wire

record RawMediaItem =
  rm_id :: string
  rm_outlet :: string
  rm_media_type :: "MediaType option"
  rm_title :: string
  rm_lede :: "string option"
  rm_url :: "string option"
  rm_published_at :: string
  rm_retrieved_at :: "string option"
  rm_respect_id :: "string option"

record RawPollItem =
  rp_id :: string
  rp_pollster :: string
  rp_question :: string
  rp_options :: "string list"
  rp_results :: "rat list"
  rp_fieldwork_dates :: string
  rp_published_at :: string
  rp_url :: "string option"
  rp_sample_size :: "rat option"

record RawMetricItem =
  rk_metric_id :: string
  rk_label :: string
  rk_unit :: string
  rk_latest_value :: rat
  rk_previous_value :: rat
  rk_period :: string
  rk_updated_at :: string
  rk_source_ref :: "string option"

datatype ItemType = Media | Poll | Metric

record ClassifiedItem =
  ci_item_type :: ItemType
  ci_subject_id :: string
  ci_item_id :: string
  ci_respect_id :: string
  ci_confidence :: rat
  ci_rationale :: "string list"
  ci_extracted_phrases :: "string list"
  ci_timestamp :: string

text \<open>\<open>[item.title, item.lede].filter(Boolean).join(" ")\<close>: an empty string is falsy.\<close>

definition media_text :: "RawMediaItem \<Rightarrow> string" where
  "media_text item =
     join '' '' (filter (\<lambda>x. x \<noteq> [])
       ([rm_title item] @ (case rm_lede item of None \<Rightarrow> [] | Some l \<Rightarrow> [l])))"

definition classifyMediaItem :: "string \<Rightarrow> string \<Rightarrow> RawMediaItem \<Rightarrow> ClassifiedItem" where
  "classifyMediaItem now subject_id item =
     (let scored = scoreText (media_text item) in
      case scored of
        [] \<Rightarrow>
          \<lparr>ci_item_type = Media, ci_subject_id = subject_id, ci_item_id = rm_id item,
           ci_respect_id = ''security_border'', ci_confidence = 1 / 2,
           ci_rationale = [''No keyword match; default security_border''],
           ci_extracted_phrases = [], ci_timestamp = now\<rparr>
      | top1 # _ \<Rightarrow>
          (let maxScore = rs_score top1 in
           \<lparr>ci_item_type = Media, ci_subject_id = subject_id, ci_item_id = rm_id item,
            ci_respect_id = rs_respect_id top1,
            ci_confidence = normalizeConfidence (rs_score top1) maxScore,
            ci_rationale = (if rs_matched top1 \<noteq> []
               then [''Matched: '' @ join '', '' (take 5 (rs_matched top1))]
               else [''No keyword match; default security_border'']),
            ci_extracted_phrases = rs_matched top1, ci_timestamp = now\<rparr>))"

text \<open>
  The regular expressions of the pipeline are case-insensitive alternations of literals;
  such a pattern is the list of its alternatives, and \<open>pattern.test(s)\<close> holds when one of
  them occurs in \<open>s\<close>, letter case ignored.
\<close>

record RespectPattern =
  pat_alternatives :: "string list"
  pat_respect_id :: string

definition pattern_test :: "string list \<Rightarrow> string \<Rightarrow> bool" where
  "pattern_test alts s = list_ex (\<lambda>a. str_includes (toLowerCase s) (toLowerCase a)) alts"

definition POLL_RESPECT_MAP :: "RespectPattern list" where
  "POLL_RESPECT_MAP = [
     \<lparr>pat_alternatives = [''tough'', ''stop'', ''deter'', ''crackdown'', ''reduce numbers'', ''boats''],
      pat_respect_id = ''security_border''\<rparr>,
     \<lparr>pat_alternatives = [''humane'', ''dignity'', ''protect'', ''refugee'', ''safe route''],
      pat_respect_id = ''humanitarian''\<rparr>,
     \<lparr>pat_alternatives = [''ECHR'', ''HRA'', ''legal'', ''court'', ''due process'', ''law''],
      pat_respect_id = ''rule_of_law''\<rparr>,
     \<lparr>pat_alternatives = [''sovereignty'', ''control'', ''take back''],
      pat_respect_id = ''sovereignty_control''\<rparr>]"

definition poll_text :: "RawPollItem \<Rightarrow> string" where
  "poll_text item = rp_question item @ '' '' @ join '' '' (rp_options item)"

definition classifyPollItem :: "string \<Rightarrow> string \<Rightarrow> RawPollItem \<Rightarrow> ClassifiedItem" where
  "classifyPollItem now subject_id item =
     (let text = poll_text item;
          scored = scoreText text in
      case find (\<lambda>p. pattern_test (pat_alternatives p) text) POLL_RESPECT_MAP of
        Some p \<Rightarrow>
          \<lparr>ci_item_type = Poll, ci_subject_id = subject_id, ci_item_id = rp_id item,
           ci_respect_id = pat_respect_id p, ci_confidence = 65 / 100,
           ci_rationale = [''Pattern match: '' @ pat_respect_id p],
           ci_extracted_phrases = [], ci_timestamp = now\<rparr>
      | None \<Rightarrow>
         (case scored of
            [] \<Rightarrow>
              \<lparr>ci_item_type = Poll, ci_subject_id = subject_id, ci_item_id = rp_id item,
               ci_respect_id = ''security_border'', ci_confidence = 1 / 2,
               ci_rationale = [''Default security_border''],
               ci_extracted_phrases = [], ci_timestamp = now\<rparr>
          | top1 # _ \<Rightarrow>
              \<lparr>ci_item_type = Poll, ci_subject_id = subject_id, ci_item_id = rp_id item,
               ci_respect_id = rs_respect_id top1,
               ci_confidence = normalizeConfidence (rs_score top1) (rs_score top1),
               ci_rationale = (if rs_matched top1 \<noteq> []
                  then [''Matched: '' @ join '', '' (rs_matched top1)]
                  else [''Default security_border'']),
               ci_extracted_phrases = rs_matched top1, ci_timestamp = now\<rparr>))"

definition metric_text :: "RawMetricItem \<Rightarrow> string" where
  "metric_text item = rk_label item @ '' '' @ (case rk_source_ref item of None \<Rightarrow> [] | Some r \<Rightarrow> r)"

definition classifyMetricItem :: "string \<Rightarrow> string \<Rightarrow> RawMetricItem \<Rightarrow> ClassifiedItem" where
  "classifyMetricItem now subject_id item =
     (let scored = scoreText (metric_text item) in
      case scored of
        [] \<Rightarrow>
          \<lparr>ci_item_type = Metric, ci_subject_id = subject_id, ci_item_id = rk_metric_id item,
           ci_respect_id = ''capacity_delivery'', ci_confidence = 1 / 2,
           ci_rationale = [''Metric label; default capacity''],
           ci_extracted_phrases = [], ci_timestamp = now\<rparr>
      | top1 # _ \<Rightarrow>
          \<lparr>ci_item_type = Metric, ci_subject_id = subject_id, ci_item_id = rk_metric_id item,
           ci_respect_id = rs_respect_id top1, ci_confidence = 7 / 10,
           ci_rationale = (if rs_matched top1 \<noteq> []
              then [''Matched: '' @ join '', '' (rs_matched top1)]
              else [''Metric label; default capacity'']),
           ci_extracted_phrases = rs_matched top1, ci_timestamp = now\<rparr>)"

text \<open>The confidence formula as the specification words it.\<close>

definition clamp :: "rat \<Rightarrow> rat \<Rightarrow> rat \<Rightarrow> rat" where
  "clamp x lo hi = min hi (max lo x)"

definition spec_confidence :: "rat \<Rightarrow> rat \<Rightarrow> rat" where
  "spec_confidence score topScore = clamp (score / max topScore 3) (3 / 10) (95 / 100)"

section \<open>Ordered maps\<close>

text \<open>
  A \<open>Map<PipelineRespectId, number>\<close> in insertion order. \<open>map_add m k v\<close> is
  \<open>m.set(k, (m.get(k) ?? 0) + v)\<close>: an existing key keeps its place, a new key goes last.
\<close>

type_synonym RespectShare = "string \<times> rat"

fun map_add :: "RespectShare list \<Rightarrow> string \<Rightarrow> rat \<Rightarrow> RespectShare list" where
  "map_add [] k v = [(k, 0 + v)]"
| "map_add ((k', w) # m) k v = (if k' = k then (k', w + v) # m else (k', w) # map_add m k v)"

text \<open>\<open>m.get(k) ?? 0\<close>.\<close>

definition map_get0 :: "RespectShare list \<Rightarrow> string \<Rightarrow> rat" where
  "map_get0 m k = (case map_of m k of None \<Rightarrow> 0 | Some v \<Rightarrow> v)"

text \<open>\<open>Array.from(new Set(xs))\<close>: the first occurrence of each element, in order.\<close>

fun dedupe :: "'a list \<Rightarrow> 'a list" where
  "dedupe [] = []"
| "dedupe (x # xs) = x # dedupe (filter (\<lambda>y. y \<noteq> x) xs)"

section \<open>Aggregators (aggregators.ts)\<close>

record MediaExemplar =
  ex_source_id :: string
  ex_outlet :: string
  ex_title :: string
  ex_url :: "string option"
  ex_published_at :: string
  ex_respect_id :: "string option"
  ex_confidence :: "rat option"

text \<open>
  Of the aggregates, the fields that the dominance engine and the properties below read:
  the window, the top phrases, the per-media-type breakdown and the poll summaries are
  computed independently of them and are left out.
\<close>

record MediaFramingAggregate =
  mfa_dominant :: RespectShare
  mfa_shares :: "RespectShare list"
  mfa_exemplars :: "MediaExemplar list"
  mfa_source_ids :: "string list"
  mfa_volume :: nat

record PublicPollingAggregate =
  ppa_public_prior :: RespectShare
  ppa_shares :: "RespectShare list"
  ppa_source_ids :: "string list"

definition recencyDecay :: "rat \<Rightarrow> rat" where
  "recencyDecay daysAgo = max (1 / 10) (1 - daysAgo / 14)"

text \<open>
  The weight of one classified media item. \<open>getTime s\<close> is \<open>new Date(s).getTime()\<close> for a
  parseable timestamp \<open>s\<close>, \<open>now\<close> is \<open>Date.now()\<close>, both in milliseconds.
\<close>

definition item_weight :: "(string \<Rightarrow> int) \<Rightarrow> int \<Rightarrow> RawMediaItem list \<Rightarrow> ClassifiedItem \<Rightarrow> rat" where
  "item_weight getTime now rawMedia c =
     (let raw = find (\<lambda>m. rm_id m = ci_item_id c) rawMedia;
          published = (case raw of Some r \<Rightarrow> getTime (rm_published_at r) | None \<Rightarrow> now);
          daysAgo = of_int (now - published) / (24 * 60 * 60 * 1000)
      in recencyDecay daysAgo * ci_confidence c)"

definition media_byRespect :: "(string \<Rightarrow> int) \<Rightarrow> int \<Rightarrow> RawMediaItem list \<Rightarrow> ClassifiedItem list \<Rightarrow> RespectShare list" where
  "media_byRespect getTime now rawMedia mediaClassified =
     foldl (\<lambda>m c. map_add m (ci_respect_id c) (item_weight getTime now rawMedia c)) [] mediaClassified"

text \<open>\<open>values.reduce((a, b) => a + b, 0) || 1\<close>.\<close>

definition total_or_1 :: "RespectShare list \<Rightarrow> rat" where
  "total_or_1 byRespect = (let s = foldl (+) 0 (map snd byRespect) in if s = 0 then 1 else s)"

definition normalised_shares :: "RespectShare list \<Rightarrow> RespectShare list" where
  "normalised_shares byRespect =
     (let total = total_or_1 byRespect
      in sort_key (\<lambda>e. - snd e) (map (\<lambda>(respect_id, s). (respect_id, s / total)) byRespect))"

definition mk_exemplar :: "ClassifiedItem list \<Rightarrow> RawMediaItem \<Rightarrow> MediaExemplar" where
  "mk_exemplar mediaClassified m =
     (let c = find (\<lambda>c. ci_item_id c = rm_id m) (rev mediaClassified)
      in \<lparr>ex_source_id = rm_id m, ex_outlet = rm_outlet m, ex_title = rm_title m, ex_url = rm_url m,
          ex_published_at = rm_published_at m,
          ex_respect_id = map_option ci_respect_id c, ex_confidence = map_option ci_confidence c\<rparr>)"

definition aggregate_media_framing ::
  "(string \<Rightarrow> int) \<Rightarrow> int \<Rightarrow> string \<Rightarrow> ClassifiedItem list \<Rightarrow> RawMediaItem list \<Rightarrow> MediaFramingAggregate" where
  "aggregate_media_framing getTime now subject_id classified rawMedia =
     (let mediaClassified = filter (\<lambda>c. ci_item_type c = Media) classified;
          byRespect = media_byRespect getTime now rawMedia mediaClassified;
          itemWeights = map (\<lambda>c. (ci_item_id c, item_weight getTime now rawMedia c)) mediaClassified;
          shares = normalised_shares byRespect;
          dominant = (case shares of [] \<Rightarrow> (''security_border'', 1 / 2) | d # _ \<Rightarrow> d);
          sortedWeights = sort_key (\<lambda>e. - snd e) itemWeights;
          exemplars =
            map (mk_exemplar mediaClassified)
              (take 6 (List.map_filter (\<lambda>(itemId, w). find (\<lambda>x. rm_id x = itemId) rawMedia)
                 (take 5 sortedWeights)))
      in \<lparr>mfa_dominant = dominant, mfa_shares = shares, mfa_exemplars = exemplars,
          mfa_source_ids = dedupe (map rm_id rawMedia), mfa_volume = length rawMedia\<rparr>)"

definition POLL_OPTION_TO_RESPECT :: "RespectPattern list" where
  "POLL_OPTION_TO_RESPECT = [
     \<lparr>pat_alternatives = [''tough'', ''stop'', ''reduce'', ''control'', ''border'', ''crackdown''],
      pat_respect_id = ''security_border''\<rparr>,
     \<lparr>pat_alternatives = [''humane'', ''protect'', ''refugee'', ''dignity'', ''safe''],
      pat_respect_id = ''humanitarian''\<rparr>,
     \<lparr>pat_alternatives = [''legal'', ''law'', ''ECHR'', ''process''],
      pat_respect_id = ''rule_of_law''\<rparr>,
     \<lparr>pat_alternatives = [''sovereignty'', ''take back''],
      pat_respect_id = ''sovereignty_control''\<rparr>]"

text \<open>The first pattern of the table that matches an option, if any.\<close>

definition option_pattern :: "string \<Rightarrow> RespectPattern option" where
  "option_pattern opt = find (\<lambda>p. pattern_test (pat_alternatives p) opt) POLL_OPTION_TO_RESPECT"

text \<open>\<open>poll.results[i] ?? 0\<close>.\<close>

definition result_at :: "rat list \<Rightarrow> nat \<Rightarrow> rat" where
  "result_at results i = (if i < length results then results ! i else 0)"

definition poll_option_step :: "RawPollItem \<Rightarrow> RespectShare list \<Rightarrow> nat \<Rightarrow> RespectShare list" where
  "poll_option_step poll out i =
     (let opt = rp_options poll ! i;
          pct = result_at (rp_results poll) i
      in case option_pattern opt of
           Some p \<Rightarrow> map_add out (pat_respect_id p) pct
         | None \<Rightarrow> out)"

definition mapPollToRespectShare :: "RawPollItem \<Rightarrow> RespectShare list" where
  "mapPollToRespectShare poll =
     (let out = foldl (poll_option_step poll) [] [0 ..< length (rp_options poll)]
      in if out = [] then [(''security_border'', 1 / 2)] else out)"

definition poll_byRespect :: "RawPollItem list \<Rightarrow> ClassifiedItem list \<Rightarrow> RespectShare list" where
  "poll_byRespect rawPolls pollClassified =
     foldl (\<lambda>m c.
        case find (\<lambda>p. rp_id p = ci_item_id c) rawPolls of
          None \<Rightarrow> m
        | Some poll \<Rightarrow>
            foldl (\<lambda>m' (respect_id, share). map_add m' respect_id (share * ci_confidence c))
              m (mapPollToRespectShare poll))
       [] pollClassified"

definition aggregate_public_polling ::
  "string \<Rightarrow> ClassifiedItem list \<Rightarrow> RawPollItem list \<Rightarrow> PublicPollingAggregate" where
  "aggregate_public_polling subject_id classified rawPolls =
     (let pollClassified = filter (\<lambda>c. ci_item_type c = Poll) classified;
          byRespect = poll_byRespect rawPolls pollClassified;
          sorted = normalised_shares byRespect;
          public_prior = (case sorted of [] \<Rightarrow> (''security_border'', 1 / 2) | d # _ \<Rightarrow> d)
      in \<lparr>ppa_public_prior = public_prior, ppa_shares = take 5 sorted,
          ppa_source_ids = dedupe (map rp_id rawPolls)\<rparr>)"

section \<open>Double-precision arithmetic\<close>

text \<open>
  A finite double is the rational it denotes. \<open>round_double x\<close> is the double nearest to
  \<open>x\<close>, ties going to the even significand: 53 significant bits, and below \<open>2^-1022\<close> the
  fixed spacing \<open>2^-1074\<close> of the subnormal numbers. Overflow to infinity is not modelled:
  the shares and weights of the pipeline are at most 1 in magnitude.
\<close>

text \<open>The number of binary digits of a positive integer.\<close>

function bitlen :: "int \<Rightarrow> int" where
  "bitlen n = (if n \<le> 0 then 0 else 1 + bitlen (n div 2))"
  by pat_completeness auto
termination
  by (relation "measure nat") auto

declare bitlen.simps [simp del]

definition pow2 :: "int \<Rightarrow> rat" where
  "pow2 e = (if 0 \<le> e then 2 ^ nat e else 1 / 2 ^ nat (- e))"

text \<open>The binary exponent of a non-zero number: \<open>pow2 (ilog2 x) \<le> \<bar>x\<bar> < pow2 (ilog2 x + 1)\<close>.\<close>

definition ilog2 :: "rat \<Rightarrow> int" where
  "ilog2 x =
     (let (a, b) = quotient_of \<bar>x\<bar>;
          d = bitlen a - bitlen b
      in if pow2 d \<le> \<bar>x\<bar> then d else d - 1)"

definition round_half_even :: "rat \<Rightarrow> int" where
  "round_half_even n =
     (let f = \<lfloor>n\<rfloor>; d = n - of_int f
      in if d < 1 / 2 then f else if 1 / 2 < d then f + 1 else if even f then f else f + 1)"

definition round_double :: "rat \<Rightarrow> rat" where
  "round_double x =
     (if x = 0 then 0
      else let q = pow2 (max (ilog2 x - 52) (- 1074))
           in of_int (round_half_even (x / q)) * q)"

text \<open>The operators \<open>+\<close>, \<open>-\<close> and \<open>*\<close> on doubles, and the double that a decimal literal denotes.\<close>

definition fadd :: "rat \<Rightarrow> rat \<Rightarrow> rat" where
  "fadd a b = round_double (a + b)"

definition fsub :: "rat \<Rightarrow> rat \<Rightarrow> rat" where
  "fsub a b = round_double (a - b)"

definition fmul :: "rat \<Rightarrow> rat \<Rightarrow> rat" where
  "fmul a b = round_double (a * b)"

definition dbl :: "rat \<Rightarrow> rat" where
  "dbl x = round_double x"

section \<open>The dominance engine (dominance.ts)\<close>

definition MEDIA_WEIGHT :: rat where "MEDIA_WEIGHT = dbl (45 / 100)"
definition PUBLIC_WEIGHT :: rat where "PUBLIC_WEIGHT = dbl (35 / 100)"
definition INSTITUTIONAL_WEIGHT :: rat where "INSTITUTIONAL_WEIGHT = dbl (2 / 10)"

record InstitutionalRespect =
  inst_respect_id :: string
  inst_note :: string
  inst_source_ids :: "string list"

text \<open>
  The table has one own key; the engine is called with the subject \<open>small_boats\<close> only.
\<close>

definition INSTITUTIONAL_RESPECT_BY_SUBJECT :: "string \<Rightarrow> InstitutionalRespect option" where
  "INSTITUTIONAL_RESPECT_BY_SUBJECT subjectId =
     (if subjectId = ''small_boats'' then
        Some \<lparr>inst_respect_id = ''security_border'',
              inst_note = ''Legal and incumbent sources emphasise deterrence and control.'',
              inst_source_ids = [''institutional_illegal_migration_act'', ''institutional_home_office_strategy'']\<rparr>
      else None)"

datatype ContributorType = MediaC | PublicC | InstitutionalC

record DominanceContributor =
  dc_type :: ContributorType
  dc_respect_id :: string
  dc_weight :: rat
  dc_value_share :: "rat option"
  dc_note :: "string option"
  dc_source_ids :: "string list"

datatype SnapshotStatus = Proposed | Validated

record DominanceSnapshot =
  ds_as_of :: string
  ds_dominant :: RespectShare
  ds_contributors :: "DominanceContributor list"
  ds_status :: SnapshotStatus
  ds_split_dominance :: bool
  ds_alternative :: "RespectShare list"

text \<open>
  \<open>scores.set(k, (scores.get(k) ?? 0) + v)\<close> on the score map, in double arithmetic: an
  existing key keeps its place, a new key goes last.
\<close>

fun scores_set :: "RespectShare list \<Rightarrow> string \<Rightarrow> rat \<Rightarrow> RespectShare list" where
  "scores_set [] k v = [(k, fadd 0 v)]"
| "scores_set ((k', w) # m) k v = (if k' = k then (k', fadd w v) # m else (k', w) # scores_set m k v)"

text \<open>
  The score map of \<open>weightedVote\<close> after its three steps. The aggregate types make
  \<open>dominant\<close> and \<open>public_prior\<close> required objects, so the guards \<open>media.dominant &&\<close> and
  \<open>publicAgg.public_prior &&\<close> hold.
\<close>

definition vote_scores :: "MediaFramingAggregate \<Rightarrow> PublicPollingAggregate \<Rightarrow> string \<Rightarrow> RespectShare list" where
  "vote_scores media publicAgg subjectId =
     (let scores1 = scores_set [] (fst (mfa_dominant media)) (fmul (snd (mfa_dominant media)) MEDIA_WEIGHT);
          scores2 = scores_set scores1 (fst (ppa_public_prior publicAgg))
                      (fmul (snd (ppa_public_prior publicAgg)) PUBLIC_WEIGHT)
      in case INSTITUTIONAL_RESPECT_BY_SUBJECT subjectId of
           Some inst \<Rightarrow> scores_set scores2 (inst_respect_id inst) INSTITUTIONAL_WEIGHT
         | None \<Rightarrow> scores2)"

definition vote_contributors :: "MediaFramingAggregate \<Rightarrow> PublicPollingAggregate \<Rightarrow> string \<Rightarrow> DominanceContributor list" where
  "vote_contributors media publicAgg subjectId =
     [\<lparr>dc_type = MediaC, dc_respect_id = fst (mfa_dominant media), dc_weight = MEDIA_WEIGHT,
       dc_value_share = Some (snd (mfa_dominant media)), dc_note = None,
       dc_source_ids = take 5 (mfa_source_ids media)\<rparr>,
      \<lparr>dc_type = PublicC, dc_respect_id = fst (ppa_public_prior publicAgg), dc_weight = PUBLIC_WEIGHT,
       dc_value_share = Some (snd (ppa_public_prior publicAgg)), dc_note = None,
       dc_source_ids = take 5 (ppa_source_ids publicAgg)\<rparr>]
     @ (case INSTITUTIONAL_RESPECT_BY_SUBJECT subjectId of
          Some inst \<Rightarrow>
            [\<lparr>dc_type = InstitutionalC, dc_respect_id = inst_respect_id inst,
              dc_weight = INSTITUTIONAL_WEIGHT, dc_value_share = None, dc_note = Some (inst_note inst),
              dc_source_ids = inst_source_ids inst\<rparr>]
        | None \<Rightarrow> [])"

text \<open>
  \<open>sorted\<close> is never empty (the map holds the media entry), so the fallback object of the
  source, which has no components \<open>[0]\<close> and \<open>[1]\<close>, is never read; the empty case below
  stands for its undefined fields. The comparator \<open>b[1] - a[1]\<close> has the sign of the exact
  difference (a difference of two distinct finite doubles does not round to zero), so the
  sort is the stable sort by descending score. The flag compares the rounded difference of
  the two top scores with the double \<open>0.1\<close>.
\<close>

definition weightedVote :: "string \<Rightarrow> MediaFramingAggregate \<Rightarrow> PublicPollingAggregate \<Rightarrow> string \<Rightarrow> DominanceSnapshot" where
  "weightedVote now media publicAgg subjectId =
     (let scores = vote_scores media publicAgg subjectId;
          sorted = sort_key (\<lambda>e. - snd e) scores;
          dominant = (case sorted of [] \<Rightarrow> ([], 0) | d # _ \<Rightarrow> d);
          alternative = take 3 (drop 1 sorted);
          split_dominance =
            (length sorted \<ge> 2 \<and> \<bar>fsub (snd (sorted ! 0)) (snd (sorted ! 1))\<bar> < dbl (1 / 10))
      in \<lparr>ds_as_of = now, ds_dominant = dominant,
          ds_contributors = vote_contributors media publicAgg subjectId,
          ds_status = Proposed, ds_split_dominance = split_dominance, ds_alternative = alternative\<rparr>)"

definition compute_dominant_respect_now :: "string \<Rightarrow> string \<Rightarrow> MediaFramingAggregate \<Rightarrow> PublicPollingAggregate \<Rightarrow> DominanceSnapshot" where
  "compute_dominant_respect_now now subjectId mediaAgg publicAgg = weightedVote now mediaAgg publicAgg subjectId"

section \<open>Media classification by the external oracle (classify-media-llm.ts, refresh.ts)\<close>

datatype js_error = TransportError | TypeError

text \<open>
  What the chat-completion request and \<open>JSON.parse\<close> of its content give:
  \<^item> \<open>CreateRejects\<close>: the request throws (transport or service error);
  \<^item> \<open>Unparseable\<close>: the content is not JSON, \<open>JSON.parse\<close> throws and is caught;
  \<^item> \<open>BadShape\<close>: the content parses to \<open>null\<close>, or its \<open>classifications\<close> is present
    and not an array, so that reading or mapping it throws a \<open>TypeError\<close>;
  \<^item> \<open>Parsed cs\<close>: the content parses to a value whose \<open>classifications\<close> is absent
    (\<open>None\<close>) or an array of entries \<open>(index, respect_id)\<close>.
\<close>

datatype oracle_reply = CreateRejects | Unparseable | BadShape | Parsed "(nat \<times> string) list option"

text \<open>\<open>new Map(pairs).get(i)\<close>: the last pair with the key wins.\<close>

definition byIndex_get :: "(nat \<times> string) list \<Rightarrow> nat \<Rightarrow> string option" where
  "byIndex_get classifications i = map_of (rev classifications) i"

definition llm_item :: "string \<Rightarrow> string \<Rightarrow> (nat \<times> string) list \<Rightarrow> nat \<times> RawMediaItem \<Rightarrow> ClassifiedItem" where
  "llm_item timestamp subject_id classifications im =
     (let respect_id =
            (case byIndex_get classifications (fst im) of
               Some r \<Rightarrow> if r \<noteq> [] \<and> r \<in> set PIPELINE_RESPECT_IDS then r else ''security_border''
             | None \<Rightarrow> ''security_border'')
      in \<lparr>ci_item_type = Media, ci_subject_id = subject_id, ci_item_id = rm_id (snd im),
          ci_respect_id = respect_id, ci_confidence = 8 / 10,
          ci_rationale = [''LLM classification''], ci_extracted_phrases = [],
          ci_timestamp = timestamp\<rparr>)"

definition classifyMediaWithLLM ::
  "bool \<Rightarrow> oracle_reply \<Rightarrow> string \<Rightarrow> string \<Rightarrow> RawMediaItem list \<Rightarrow> js_error + ClassifiedItem list" where
  "classifyMediaWithLLM apiKey reply now subject_id items =
     (if items = [] then Inr []
      else if \<not> apiKey then Inr []
      else case reply of
             CreateRejects \<Rightarrow> Inl TransportError
           | Unparseable \<Rightarrow> Inr []
           | BadShape \<Rightarrow> Inl TypeError
           | Parsed cs \<Rightarrow>
               (let classifications = (case cs of None \<Rightarrow> [] | Some l \<Rightarrow> l)
                in Inr (map (llm_item now subject_id classifications) (zip [0 ..< length items] items))))"

text \<open>\<open>rawMedia.filter((m) => m.respect_id)\<close>: an absent or empty id is falsy.\<close>

definition has_label :: "RawMediaItem \<Rightarrow> bool" where
  "has_label m = (case rm_respect_id m of None \<Rightarrow> False | Some r \<Rightarrow> r \<noteq> [])"

definition prelabelled_item :: "string \<Rightarrow> string \<Rightarrow> RawMediaItem \<Rightarrow> ClassifiedItem" where
  "prelabelled_item now subjectId m =
     \<lparr>ci_item_type = Media, ci_subject_id = subjectId, ci_item_id = rm_id m,
      ci_respect_id = (case rm_respect_id m of Some r \<Rightarrow> r | None \<Rightarrow> []),
      ci_confidence = 9 / 10, ci_rationale = [''Pre-labelled (curated)''],
      ci_extracted_phrases = [], ci_timestamp = now\<rparr>"

text \<open>
  The branch of \<open>refresh_small_boats\<close> that classifies the media items without a label:
  what it appends to \<open>classified\<close>.
\<close>

definition classify_media_batch ::
  "bool \<Rightarrow> oracle_reply \<Rightarrow> string \<Rightarrow> string \<Rightarrow> RawMediaItem list \<Rightarrow> ClassifiedItem list" where
  "classify_media_batch apiKey reply now subjectId mediaToClassify =
     (if mediaToClassify \<noteq> [] then
        (if apiKey then
           (case classifyMediaWithLLM apiKey reply now subjectId mediaToClassify of
              Inr llmClassified \<Rightarrow> llmClassified
            | Inl err \<Rightarrow> map (classifyMediaItem now subjectId) mediaToClassify)
         else map (classifyMediaItem now subjectId) mediaToClassify)
      else [])"

definition refresh_classify ::
  "bool \<Rightarrow> oracle_reply \<Rightarrow> string \<Rightarrow> string \<Rightarrow> RawMediaItem list \<Rightarrow> RawPollItem list \<Rightarrow> RawMetricItem list
     \<Rightarrow> ClassifiedItem list" where
  "refresh_classify apiKey reply now subjectId rawMedia rawPolls rawMetrics =
     map (prelabelled_item now subjectId) (filter has_label rawMedia)
     @ classify_media_batch apiKey reply now subjectId (filter (\<lambda>m. \<not> has_label m) rawMedia)
     @ map (classifyPollItem now subjectId) rawPolls
     @ map (classifyMetricItem now subjectId) rawMetrics"

text \<open>
  The media aggregate of a refresh: the aggregator is called with the classified items
  that the refresh has built and with the raw media items they were built from.
\<close>

definition refresh_media_aggregate ::
  "(string \<Rightarrow> int) \<Rightarrow> int \<Rightarrow> bool \<Rightarrow> oracle_reply \<Rightarrow> string \<Rightarrow> string \<Rightarrow> RawMediaItem list
     \<Rightarrow> RawPollItem list \<Rightarrow> RawMetricItem list \<Rightarrow> MediaFramingAggregate" where
  "refresh_media_aggregate getTime now_ms apiKey reply now subjectId rawMedia rawPolls rawMetrics =
     aggregate_media_framing getTime now_ms subjectId
       (refresh_classify apiKey reply now subjectId rawMedia rawPolls rawMetrics) rawMedia"

section \<open>The passage extractor (passage-extractor.ts)\<close>

text \<open>
  What reading a property of the table of trigger phrases gives: the list of an own key, or
  a member that the table, a plain object, inherits from \<open>Object.prototype\<close>. An inherited
  member is not iterable; it is kept with its \<open>length\<close>, the arity of a function, which the
  prototype object itself (\<open>__proto__\<close>) does not have.
\<close>

datatype table_member = OwnTriggers "string list" | Inherited "nat option"

definition SUBJECT_TRIGGER_PHRASES :: "string \<Rightarrow> table_member option" where
  "SUBJECT_TRIGGER_PHRASES subjectId =
     (if subjectId = ''migration'' then
        Some (OwnTriggers
          [''migration'', ''immigration'', ''immigrate'', ''migrant'', ''migrants'', ''border'', ''borders'',
           ''asylum'', ''refugee'', ''refugees'', ''visa'', ''visas'', ''entry'', ''settlement'', ''citizenship'',
           ''channel crossing'', ''channel crossings'', ''small boat'', ''small boats'', ''dinghy'',
           ''boats crossing'', ''illegal migration'', ''legal migration'', ''irregular crossing'',
           ''english channel'', ''crossing the channel''])
      else if subjectId = ''small_boats'' then
        Some (OwnTriggers
          [''small boat'', ''small boats'', ''channel crossing'', ''channel crossings'', ''dinghy'',
           ''dinghies'', ''boats crossing'', ''english channel'', ''crossing the channel'',
           ''irregular crossing'', ''illegal migration'', ''migrant'', ''migrants'', ''asylum'', ''refugee''])
      else if subjectId \<in> set [''toString'', ''toLocaleString'', ''valueOf''] then
        Some (Inherited (Some 0))
      else if subjectId \<in> set [''constructor'', ''hasOwnProperty'', ''isPrototypeOf'',
                               ''propertyIsEnumerable'', ''__lookupGetter__'', ''__lookupSetter__''] then
        Some (Inherited (Some 1))
      else if subjectId \<in> set [''__defineGetter__'', ''__defineSetter__''] then
        Some (Inherited (Some 2))
      else if subjectId = ''__proto__'' then
        Some (Inherited None)
      else None)"

text \<open>\<open>SUBJECT_TRIGGER_PHRASES[subjectId] ?? SUBJECT_TRIGGER_PHRASES.migration ?? []\<close>.\<close>

definition subject_triggers :: "string \<Rightarrow> table_member" where
  "subject_triggers subjectId =
     (case SUBJECT_TRIGGER_PHRASES subjectId of
        Some m \<Rightarrow> m
      | None \<Rightarrow> (case SUBJECT_TRIGGER_PHRASES ''migration'' of Some m \<Rightarrow> m | None \<Rightarrow> OwnTriggers []))"

text \<open>
  The options of a call; an absent field takes the default (window 2, sentences). The
  window counts segments and is an integer, possibly negative.
\<close>

record PassageExtractorOptions =
  opt_sentenceWindow :: "int option"
  opt_useParagraphs :: "bool option"
  opt_maxCharsPerSubject :: "nat option"

record ExtractedPassage =
  ep_start :: nat
  ep_end :: nat
  ep_text :: string
  ep_triggerMatched :: string
  ep_subjectId :: string

record Segment =
  seg_text :: string
  seg_start :: nat
  seg_end :: nat

record Range =
  r_start :: nat
  r_end :: nat

record HitRange =
  hr_start :: nat
  hr_end :: nat
  hr_trigger :: string

text \<open>\<open>s.indexOf(p)\<close>, with \<open>None\<close> for \<open>-1\<close>.\<close>

fun find_sub :: "string \<Rightarrow> string \<Rightarrow> nat option" where
  "find_sub [] p = (if p = [] then Some 0 else None)"
| "find_sub (c # cs) p = (if starts_with (c # cs) p then Some 0 else map_option Suc (find_sub cs p))"

text \<open>\<open>text.indexOf(p, pos)\<close> for \<open>pos\<close> within the text.\<close>

definition indexOf :: "string \<Rightarrow> string \<Rightarrow> nat \<Rightarrow> nat option" where
  "indexOf text p pos = map_option (\<lambda>i. pos + i) (find_sub (drop pos text) p)"

text \<open>\<open>text.slice(a, b)\<close> for offsets \<open>a\<close>, \<open>b\<close> within the text; empty when \<open>b \<le> a\<close>.\<close>

definition slice :: "string \<Rightarrow> nat \<Rightarrow> nat \<Rightarrow> string" where
  "slice text a b = take (b - a) (drop a text)"

definition sentence_end :: "string \<Rightarrow> nat \<Rightarrow> nat" where
  "sentence_end text pos =
     (let len = length text;
          end1 = (case indexOf text ''. '' pos of Some nextPeriod \<Rightarrow> min len (nextPeriod + 1) | None \<Rightarrow> len);
          end2 = (case indexOf text [CHR 0x0A] pos of Some nextNewline \<Rightarrow> min end1 (nextNewline + 1) | None \<Rightarrow> end1)
      in end2)"

text \<open>The loop of \<open>getSentences\<close>, from position \<open>pos\<close> on.\<close>

function getSentences_from :: "string \<Rightarrow> nat \<Rightarrow> Segment list" where
  "getSentences_from text pos =
     (if pos < length text then
        (let end = sentence_end text pos;
             sentence = trim (slice text pos end)
         in (if sentence \<noteq> [] then [\<lparr>seg_text = sentence, seg_start = pos, seg_end = end\<rparr>] else [])
            @ getSentences_from text (if end < length text then end else length text))
      else [])"
  by pat_completeness auto
termination
proof (relation "measure (\<lambda>(text, pos). length text - pos)")
  show "wf (measure (\<lambda>(text, pos). length text - pos))"
    by simp
next
  fix s :: string and pos x :: nat
  assume less: "pos < length s" and x: "x = sentence_end s pos"
  have "pos < x"
    using less unfolding x sentence_end_def indexOf_def Let_def
    by (auto split: option.splits)
  with less
  show "((s, if x < length s then x else length s), s, pos)
          \<in> measure (\<lambda>(text, pos). length text - pos)"
    by auto
qed

declare getSentences_from.simps [simp del]

definition getSentences :: "string \<Rightarrow> Segment list" where
  "getSentences text = getSentences_from text 0"

text \<open>The loop of \<open>getParagraphs\<close>, from position \<open>pos\<close> on.\<close>

function getParagraphs_from :: "string \<Rightarrow> nat \<Rightarrow> Segment list" where
  "getParagraphs_from text pos =
     (if pos < length text then
        (let nextDouble = indexOf text [CHR 0x0A, CHR 0x0A] pos;
             end = (case nextDouble of None \<Rightarrow> length text | Some d \<Rightarrow> d);
             paragraph = trim (slice text pos end)
         in (if paragraph \<noteq> [] then [\<lparr>seg_text = paragraph, seg_start = pos, seg_end = end\<rparr>] else [])
            @ getParagraphs_from text (case nextDouble of None \<Rightarrow> length text | Some d \<Rightarrow> d + 2))
      else [])"
  by pat_completeness auto
termination
proof (relation "measure (\<lambda>(text, pos). length text - pos)")
  show "wf (measure (\<lambda>(text, pos). length text - pos))"
    by simp
next
  fix s :: string and pos :: nat and x :: "nat option"
  assume less: "pos < length s" and x: "x = indexOf s [CHR 0x0A, CHR 0x0A] pos"
  have "pos < (case x of None \<Rightarrow> length s | Some d \<Rightarrow> d + 2)"
    using less unfolding x indexOf_def by (auto split: option.splits)
  with less
  show "((s, case x of None \<Rightarrow> length s | Some d \<Rightarrow> d + 2), s, pos)
          \<in> measure (\<lambda>(text, pos). length text - pos)"
    by auto
qed

declare getParagraphs_from.simps [simp del]

definition getParagraphs :: "string \<Rightarrow> Segment list" where
  "getParagraphs text = getParagraphs_from text 0"

text \<open>\<open>indexOfPhrase\<close>, with \<open>None\<close> for \<open>-1\<close>.\<close>

definition indexOfPhrase :: "string \<Rightarrow> string \<Rightarrow> nat option" where
  "indexOfPhrase text phrase = find_sub (toLowerCase text) (toLowerCase phrase)"

text \<open>
  The loop of \<open>mergeRanges\<close> over the sorted ranges: \<open>lst\<close> is the last element of
  \<open>merged\<close>, which the loop extends in place or closes when it pushes a new one.
\<close>

fun merge_loop :: "Range \<Rightarrow> Range list \<Rightarrow> Range list" where
  "merge_loop lst [] = [lst]"
| "merge_loop lst (cur # rest) =
     (if r_start cur \<le> r_end lst + 1
      then merge_loop (lst\<lparr>r_end := max (r_end lst) (r_end cur)\<rparr>) rest
      else lst # merge_loop cur rest)"

definition mergeRanges :: "Range list \<Rightarrow> Range list" where
  "mergeRanges ranges =
     (case sort_key r_start ranges of
        [] \<Rightarrow> []
      | first # rest \<Rightarrow> merge_loop first rest)"

text \<open>\<open>segments[k]\<close> for a number \<open>k\<close>: undefined outside the array.\<close>

definition seg_at :: "Segment list \<Rightarrow> int \<Rightarrow> Segment option" where
  "seg_at segments k = (if 0 \<le> k \<and> k < int (length segments) then Some (segments ! nat k) else None)"

definition first_trigger :: "string list \<Rightarrow> Segment \<Rightarrow> string option" where
  "first_trigger triggers seg = find (\<lambda>phrase. indexOfPhrase (seg_text seg) phrase \<noteq> None) triggers"

text \<open>
  The loop that fills \<open>hitRanges\<close>, over the segment indices. Reading \<open>.start\<close> or \<open>.end\<close>
  of an undefined segment throws a \<open>TypeError\<close>.
\<close>

fun collect_hits :: "Segment list \<Rightarrow> string list \<Rightarrow> int \<Rightarrow> nat list \<Rightarrow> js_error + HitRange list" where
  "collect_hits segments triggers window [] = Inr []"
| "collect_hits segments triggers window (i # rest) =
     (case first_trigger triggers (segments ! i) of
        None \<Rightarrow> collect_hits segments triggers window rest
      | Some phrase \<Rightarrow>
          (let lo = max 0 (int i - window);
               hi = min (int (length segments) - 1) (int i + window)
           in case seg_at segments lo of
                None \<Rightarrow> Inl TypeError
              | Some a \<Rightarrow>
                 (case seg_at segments hi of
                    None \<Rightarrow> Inl TypeError
                  | Some b \<Rightarrow>
                     (case collect_hits segments triggers window rest of
                        Inl e \<Rightarrow> Inl e
                      | Inr hits \<Rightarrow>
                          Inr (\<lparr>hr_start = seg_start a, hr_end = seg_end b, hr_trigger = phrase\<rparr> # hits)))))"

definition passage_trigger :: "HitRange list \<Rightarrow> string list \<Rightarrow> Range \<Rightarrow> string" where
  "passage_trigger hitRanges triggers rng =
     (case find (\<lambda>h. hr_start h = r_start rng \<or> (hr_end h = r_end rng \<and> hr_start h \<le> r_start rng))
             hitRanges of
        Some h \<Rightarrow> hr_trigger h
      | None \<Rightarrow> hd triggers)"

definition mk_passage :: "string \<Rightarrow> string \<Rightarrow> HitRange list \<Rightarrow> string list \<Rightarrow> Range \<Rightarrow> ExtractedPassage option" where
  "mk_passage fullText subjectId hitRanges triggers rng =
     (let text = trim (slice fullText (r_start rng) (r_end rng))
      in if text \<noteq> [] then
           Some \<lparr>ep_start = r_start rng, ep_end = r_end rng, ep_text = text,
                 ep_triggerMatched = passage_trigger hitRanges triggers rng, ep_subjectId = subjectId\<rparr>
         else None)"

text \<open>The window and the segments that the options select.\<close>

definition window_of :: "PassageExtractorOptions \<Rightarrow> int" where
  "window_of options = (case opt_sentenceWindow options of Some w \<Rightarrow> w | None \<Rightarrow> 2)"

definition text_segments :: "PassageExtractorOptions \<Rightarrow> string \<Rightarrow> Segment list" where
  "text_segments options fullText =
     (if (case opt_useParagraphs options of Some b \<Rightarrow> b | None \<Rightarrow> False)
      then getParagraphs fullText else getSentences fullText)"

text \<open>
  With an inherited member for \<open>triggers\<close>, the function returns the empty list when the
  member's \<open>length\<close> is 0; otherwise the loop over the triggers, entered for the first
  segment, throws a \<open>TypeError\<close> (the member is not iterable).
\<close>

definition extractPassagesForSubject ::
  "string \<Rightarrow> string \<Rightarrow> PassageExtractorOptions \<Rightarrow> js_error + ExtractedPassage list" where
  "extractPassagesForSubject fullText subjectId options =
     (let window = window_of options;
          segments = text_segments options fullText
      in case subject_triggers subjectId of
           Inherited len \<Rightarrow>
             (if len = Some 0 then Inr []
              else if segments = [] then Inr []
              else Inl TypeError)
         | OwnTriggers triggers \<Rightarrow>
             (if triggers = [] then Inr []
              else
                (case collect_hits segments triggers window [0 ..< length segments] of
                   Inl e \<Rightarrow> Inl e
                 | Inr hitRanges \<Rightarrow>
                     (let merged = mergeRanges (map (\<lambda>r. \<lparr>r_start = hr_start r, r_end = hr_end r\<rparr>) hitRanges)
                      in Inr (List.map_filter (mk_passage fullText subjectId hitRanges triggers) merged)))))"

section \<open>The specification's wording, for comparison\<close>

text \<open>
  The score of a framing as the specification words it: every source's reported share for
  that framing (read from the source's list of shares, zero when absent) times the source's
  weight, summed in the order media, public, institutional; the institutional source
  reports its one framing in full.
\<close>

definition spec_score :: "MediaFramingAggregate \<Rightarrow> PublicPollingAggregate \<Rightarrow> string \<Rightarrow> string \<Rightarrow> rat" where
  "spec_score media publicAgg subjectId r =
     fadd (fadd (fmul (map_get0 (mfa_shares media) r) MEDIA_WEIGHT)
                (fmul (map_get0 (ppa_shares publicAgg) r) PUBLIC_WEIGHT))
          (case INSTITUTIONAL_RESPECT_BY_SUBJECT subjectId of
             Some inst \<Rightarrow> if inst_respect_id inst = r then INSTITUTIONAL_WEIGHT else 0
           | None \<Rightarrow> 0)"

text \<open>
  The expanded range of segment \<open>i\<close>, as the specification words it: from the start of the
  segment \<open>window\<close> places before it to the end of the segment \<open>window\<close> places after it,
  as far as the list of segments goes. The segments that contain a trigger phrase.
\<close>

definition expanded_range :: "Segment list \<Rightarrow> int \<Rightarrow> nat \<Rightarrow> Range" where
  "expanded_range segments window i =
     \<lparr>r_start = seg_start (segments ! nat (max 0 (int i - window))),
      r_end = seg_end (segments ! nat (min (int (length segments) - 1) (int i + window)))\<rparr>"

definition trigger_indices :: "Segment list \<Rightarrow> string list \<Rightarrow> nat list" where
  "trigger_indices segments triggers =
     filter (\<lambda>i. first_trigger triggers (segments ! i) \<noteq> None) [0 ..< length segments]"

text \<open>
  Predicates for the passage extractor. A list of segments of a text is well formed from
  position \<open>pos\<close> on when every segment starts at or after \<open>pos\<close> and has a non-blank range, and
  each segment ends before the next one starts.
\<close>

definition segs_ok :: "string \<Rightarrow> nat \<Rightarrow> Segment list \<Rightarrow> bool" where
  "segs_ok t pos segs \<longleftrightarrow>
     (\<forall>g \<in> set segs. pos \<le> seg_start g \<and> trim (slice t (seg_start g) (seg_end g)) \<noteq> [])
     \<and> sorted_wrt (\<lambda>a b. seg_end a \<le> seg_start b) segs"

text \<open>
  A range \<open>m\<close> is filled by ranges of \<open>S\<close> when every position of \<open>m\<close> lies in, or right after,
  a range of \<open>S\<close> that lies within \<open>m\<close>: \<open>m\<close> has no stretch that the ranges of \<open>S\<close> leave out.
  The invariant of the merge loop adds that \<open>m\<close> ends where one of these ranges ends.
\<close>

definition dense_in :: "Range set \<Rightarrow> Range \<Rightarrow> bool" where
  "dense_in S m \<longleftrightarrow>
     (\<forall>x. r_start m \<le> x \<and> x < r_end m \<longrightarrow>
        (\<exists>r \<in> S. r_start m \<le> r_start r \<and> r_end r \<le> r_end m \<and> r_start r \<le> x \<and> x \<le> r_end r))"

definition chain_inv :: "Range set \<Rightarrow> Range \<Rightarrow> bool" where
  "chain_inv S m \<longleftrightarrow> dense_in S m \<and> (\<exists>r \<in> S. r_start m \<le> r_start r \<and> r_end r = r_end m)"

text \<open>The position of an element in a list (its catalog order).\<close>

fun index_of :: "'a \<Rightarrow> 'a list \<Rightarrow> nat" where
  "index_of x [] = 0"
| "index_of x (y # ys) = (if x = y then 0 else Suc (index_of x ys))"

text \<open>The indices of the options of a poll that some pattern of the table matches.\<close>

definition matching_options :: "RawPollItem \<Rightarrow> nat list" where
  "matching_options poll =
     filter (\<lambda>i. option_pattern (rp_options poll ! i) \<noteq> None) [0 ..< length (rp_options poll)]"

text \<open>What option \<open>i\<close> of a poll adds to framing \<open>r\<close>: its result share when the first pattern that
  matches the option maps to \<open>r\<close>.\<close>

definition option_share :: "RawPollItem \<Rightarrow> string \<Rightarrow> nat \<Rightarrow> rat" where
  "option_share poll r i =
     (case option_pattern (rp_options poll ! i) of
        Some p \<Rightarrow> if pat_respect_id p = r then result_at (rp_results poll) i else 0
      | None \<Rightarrow> 0)"

section \<open>Inputs used in the examples\<close>

text \<open>A clock that reads every timestamp as the instant \<open>t\<close>.\<close>

definition fixed_getTime :: "int \<Rightarrow> string \<Rightarrow> int" where
  "fixed_getTime t s = t"

text \<open>A raw headline with the given id, and a classified media item for it.\<close>

definition headline :: "string \<Rightarrow> RawMediaItem" where
  "headline i =
     \<lparr>rm_id = i, rm_outlet = ''BBC'', rm_media_type = None, rm_title = ''Channel crossings rise'',
      rm_lede = None, rm_url = None, rm_published_at = ''2025-06-01T00:00:00.000Z'',
      rm_retrieved_at = None, rm_respect_id = None\<rparr>"

text \<open>The same headline, curated with a framing.\<close>

definition curated :: "string \<Rightarrow> string \<Rightarrow> RawMediaItem" where
  "curated i r = (headline i)\<lparr>rm_respect_id := Some r\<rparr>"

definition labelled :: "string \<Rightarrow> rat \<Rightarrow> ClassifiedItem" where
  "labelled i conf =
     \<lparr>ci_item_type = Media, ci_subject_id = ''small_boats'', ci_item_id = i,
      ci_respect_id = ''security_border'', ci_confidence = conf,
      ci_rationale = [''LLM classification''], ci_extracted_phrases = [],
      ci_timestamp = ''2025-06-01T00:00:00.000Z''\<rparr>"


section \<open>Properties of the ordered maps\<close>

lemma map_get0_map_add: "map_get0 (map_add m k v) r = map_get0 m r + (if k = r then v else 0)"
  by (induction m) (auto simp: map_get0_def)

lemma map_get0_Nil: "map_get0 [] r = 0"
  by (simp add: map_get0_def)

lemma keys_map_add: "map fst (map_add m k v) = (if k \<in> fst ` set m then map fst m else map fst m @ [k])"
  by (induction m) force+

lemma length_map_add: "length (map_add m k v) = (if k \<in> fst ` set m then length m else Suc (length m))"
  by (induction m) force+

lemma sum_map_add: "sum_list (map snd (map_add m k v)) = sum_list (map snd m) + v"
  by (induction m) auto

lemma map_add_not_Nil: "map_add m k v \<noteq> []"
  by (cases m) (auto split: if_splits)

lemma distinct_map_add: "distinct (map fst m) \<Longrightarrow> distinct (map fst (map_add m k v))"
  by (simp add: keys_map_add)

section \<open>The keyword classifier\<close>

lemma normalizeConfidence_range:
  "3 / 10 \<le> normalizeConfidence s m \<and> normalizeConfidence s m \<le> 95 / 100"
  unfolding normalizeConfidence_def Let_def by (simp add: min_def max_def)

lemma normalizeConfidence_spec: "0 < m \<Longrightarrow> normalizeConfidence s m = spec_confidence s m"
  by (simp add: normalizeConfidence_def spec_confidence_def clamp_def Let_def)

lemma scoreText_ids: "s \<in> set (scoreText t) \<Longrightarrow> rs_respect_id s \<in> set PIPELINE_RESPECT_IDS"
  by (auto simp: scoreText_def Let_def PIPELINE_RESPECT_IDS_def score_respect_def)

lemma scoreText_pos: "s \<in> set (scoreText t) \<Longrightarrow> rs_score s > 0"
  by (auto simp: scoreText_def Let_def)

lemma poll_map_ids: "p \<in> set POLL_RESPECT_MAP \<Longrightarrow> pat_respect_id p \<in> set PIPELINE_RESPECT_IDS"
  by (auto simp: POLL_RESPECT_MAP_def PIPELINE_RESPECT_IDS_def PIPELINE_RESPECTS_def)

lemma default_ids:
  "''security_border'' \<in> set PIPELINE_RESPECT_IDS" "''capacity_delivery'' \<in> set PIPELINE_RESPECT_IDS"
  by (simp_all add: PIPELINE_RESPECT_IDS_def PIPELINE_RESPECTS_def)

lemma classifyMediaItem_result:
  "(let c = classifyMediaItem now sid m in
      3 / 10 \<le> ci_confidence c \<and> ci_confidence c \<le> 95 / 100 \<and>
      ci_respect_id c \<in> set PIPELINE_RESPECT_IDS \<and>
      (case scoreText (media_text m) of
         [] \<Rightarrow> ci_respect_id c = ''security_border'' \<and> ci_confidence c = 1 / 2
       | t # _ \<Rightarrow> ci_respect_id c = rs_respect_id t \<and>
                   ci_confidence c = spec_confidence (rs_score t) (rs_score t)))"
proof (cases "scoreText (media_text m)")
  case Nil
  then show ?thesis by (simp add: classifyMediaItem_def default_ids)
next
  case (Cons t ts)
  then have t: "t \<in> set (scoreText (media_text m))" by simp
  show ?thesis
    using Cons scoreText_ids[OF t] scoreText_pos[OF t]
      normalizeConfidence_range[of "rs_score t" "rs_score t"]
    by (simp add: classifyMediaItem_def Let_def normalizeConfidence_spec)
qed

lemma classifyMetricItem_result:
  "(let c = classifyMetricItem now sid k in
      3 / 10 \<le> ci_confidence c \<and> ci_confidence c \<le> 95 / 100 \<and>
      ci_respect_id c \<in> set PIPELINE_RESPECT_IDS \<and>
      (case scoreText (metric_text k) of
         [] \<Rightarrow> ci_respect_id c = ''capacity_delivery'' \<and> ci_confidence c = 1 / 2
       | t # _ \<Rightarrow> ci_respect_id c = rs_respect_id t \<and> ci_confidence c = 7 / 10))"
proof (cases "scoreText (metric_text k)")
  case Nil
  then show ?thesis by (simp add: classifyMetricItem_def default_ids)
next
  case (Cons t ts)
  then have t: "t \<in> set (scoreText (metric_text k))" by simp
  show ?thesis
    using Cons scoreText_ids[OF t] by (simp add: classifyMetricItem_def Let_def)
qed

lemma classifyPollItem_result:
  "(let c = classifyPollItem now sid p in
      3 / 10 \<le> ci_confidence c \<and> ci_confidence c \<le> 95 / 100 \<and>
      ci_respect_id c \<in> set PIPELINE_RESPECT_IDS \<and>
      (case find (\<lambda>q. pattern_test (pat_alternatives q) (poll_text p)) POLL_RESPECT_MAP of
         Some q \<Rightarrow> ci_respect_id c = pat_respect_id q \<and> ci_confidence c = 65 / 100
       | None \<Rightarrow>
          (case scoreText (poll_text p) of
             [] \<Rightarrow> ci_respect_id c = ''security_border'' \<and> ci_confidence c = 1 / 2
           | t # _ \<Rightarrow> ci_respect_id c = rs_respect_id t \<and>
                       ci_confidence c = spec_confidence (rs_score t) (rs_score t))))"
proof (cases "find (\<lambda>q. pattern_test (pat_alternatives q) (poll_text p)) POLL_RESPECT_MAP")
  case (Some q)
  then have "q \<in> set POLL_RESPECT_MAP" by (auto simp: find_Some_iff)
  then show ?thesis using Some poll_map_ids[of q] by (simp add: classifyPollItem_def Let_def)
next
  case None
  show ?thesis
  proof (cases "scoreText (poll_text p)")
    case Nil
    then show ?thesis using None by (simp add: classifyPollItem_def default_ids)
  next
    case (Cons t ts)
    then have t: "t \<in> set (scoreText (poll_text p))" by simp
    show ?thesis
      using None Cons scoreText_ids[OF t] scoreText_pos[OF t]
        normalizeConfidence_range[of "rs_score t" "rs_score t"]
      by (simp add: classifyPollItem_def Let_def normalizeConfidence_spec)
  qed
qed

text \<open>
  C7, as the code has it. Every item of the keyword path has a confidence in [0.3, 0.95]
  and a framing of the catalog. A media item takes the top-scoring framing with confidence
  clamp(score / max(score, 3), 0.3, 0.95), or security_border with 0.5 when no seed
  matches. A poll item takes the framing of the first pattern of POLL_RESPECT_MAP that
  matches its text, with the fixed confidence 0.65; only when no pattern matches does it
  follow the seeds as a media item does. A metric item takes the top-scoring framing with
  the fixed confidence 0.7, or capacity_delivery with 0.5 when no seed matches.
\<close>

theorem keyword_classifier_result:
  "(let c = classifyMediaItem now sid m in
      3 / 10 \<le> ci_confidence c \<and> ci_confidence c \<le> 95 / 100 \<and>
      ci_respect_id c \<in> set PIPELINE_RESPECT_IDS \<and>
      (case scoreText (media_text m) of
         [] \<Rightarrow> ci_respect_id c = ''security_border'' \<and> ci_confidence c = 1 / 2
       | t # _ \<Rightarrow> ci_respect_id c = rs_respect_id t \<and>
                   ci_confidence c = spec_confidence (rs_score t) (rs_score t)))
   \<and> (let c = classifyPollItem now sid p in
      3 / 10 \<le> ci_confidence c \<and> ci_confidence c \<le> 95 / 100 \<and>
      ci_respect_id c \<in> set PIPELINE_RESPECT_IDS \<and>
      (case find (\<lambda>q. pattern_test (pat_alternatives q) (poll_text p)) POLL_RESPECT_MAP of
         Some q \<Rightarrow> ci_respect_id c = pat_respect_id q \<and> ci_confidence c = 65 / 100
       | None \<Rightarrow>
          (case scoreText (poll_text p) of
             [] \<Rightarrow> ci_respect_id c = ''security_border'' \<and> ci_confidence c = 1 / 2
           | t # _ \<Rightarrow> ci_respect_id c = rs_respect_id t \<and>
                       ci_confidence c = spec_confidence (rs_score t) (rs_score t))))
   \<and> (let c = classifyMetricItem now sid k in
      3 / 10 \<le> ci_confidence c \<and> ci_confidence c \<le> 95 / 100 \<and>
      ci_respect_id c \<in> set PIPELINE_RESPECT_IDS \<and>
      (case scoreText (metric_text k) of
         [] \<Rightarrow> ci_respect_id c = ''capacity_delivery'' \<and> ci_confidence c = 1 / 2
       | t # _ \<Rightarrow> ci_respect_id c = rs_respect_id t \<and> ci_confidence c = 7 / 10))"
  using classifyMediaItem_result[of now sid m] classifyPollItem_result[of now sid p]
    classifyMetricItem_result[of now sid k]
  by blast

text \<open>
  C7 as stated fails: the metric labelled "backlog" matches seeds of capacity_delivery with
  score 3.5, for which the stated formula gives 0.95, and is classified with confidence 0.7.
\<close>

theorem keyword_classifier_counterexample:
  "scoreText (metric_text \<lparr>rk_metric_id = ''m1'', rk_label = ''backlog'', rk_unit = ''cases'',
         rk_latest_value = 2, rk_previous_value = 1, rk_period = ''2025'',
         rk_updated_at = ''2025-06-01T00:00:00.000Z'', rk_source_ref = None\<rparr>) =
     [\<lparr>rs_respect_id = ''capacity_delivery'', rs_score = 7 / 2,
       rs_matched = [''backlog'', ''asylum backlog'', ''clearing the backlog'']\<rparr>]
   \<and> spec_confidence (7 / 2) (7 / 2) = 95 / 100
   \<and> ci_confidence (classifyMetricItem ''2025-06-02T00:00:00.000Z'' ''small_boats''
        \<lparr>rk_metric_id = ''m1'', rk_label = ''backlog'', rk_unit = ''cases'',
         rk_latest_value = 2, rk_previous_value = 1, rk_period = ''2025'',
         rk_updated_at = ''2025-06-01T00:00:00.000Z'', rk_source_ref = None\<rparr>) = 7 / 10"
  by code_simp

section \<open>The dominance engine\<close>

lemma map_get0_scores_set:
  "map_get0 (scores_set m k v) r = (if k = r then fadd (map_get0 m r) v else map_get0 m r)"
  by (induction m) (auto simp: map_get0_def)

lemma keys_scores_set:
  "map fst (scores_set m k v) = (if k \<in> fst ` set m then map fst m else map fst m @ [k])"
  by (induction m) force+

lemma length_scores_set:
  "length (scores_set m k v) = (if k \<in> fst ` set m then length m else Suc (length m))"
  by (induction m) force+

lemma vote_scores_length:
  "1 \<le> length (vote_scores media publicAgg subjectId) \<and> length (vote_scores media publicAgg subjectId) \<le> 3"
  by (auto simp: vote_scores_def Let_def length_scores_set split: option.splits)

lemma weightedVote_ranking:
  "ds_dominant (weightedVote now media publicAgg subjectId)
     # ds_alternative (weightedVote now media publicAgg subjectId)
   = sort_key (\<lambda>e. - snd e) (vote_scores media publicAgg subjectId)"
proof -
  let ?s = "sort_key (\<lambda>e. - snd e) (vote_scores media publicAgg subjectId)"
  have len: "1 \<le> length ?s" "length ?s \<le> 3"
    using vote_scores_length[of media publicAgg subjectId] by simp_all
  then obtain d rest where s: "?s = d # rest" by (cases ?s) auto
  with len have "length rest \<le> 3" by simp
  then show ?thesis by (simp add: weightedVote_def Let_def s)
qed

text \<open>
  C1, as the code has it. The score of a framing is the sum, over the sources whose single
  top framing it is, of that top share times the source's weight: media.dominant at 0.45,
  public_prior at 0.35, and the institutional framing of the subject, when one is
  configured, at 0.20 in full, added in this order in double arithmetic. The other entries
  of the two lists of shares add nothing. The snapshot's dominant framing followed by its
  alternatives is the score map in descending order of score.
\<close>

theorem weightedVote_scores:
  "map_get0 (vote_scores media publicAgg subjectId) r =
      (let s1 = (if fst (mfa_dominant media) = r
                 then fadd 0 (fmul (snd (mfa_dominant media)) MEDIA_WEIGHT) else 0);
           s2 = (if fst (ppa_public_prior publicAgg) = r
                 then fadd s1 (fmul (snd (ppa_public_prior publicAgg)) PUBLIC_WEIGHT) else s1)
       in case INSTITUTIONAL_RESPECT_BY_SUBJECT subjectId of
            Some inst \<Rightarrow> if inst_respect_id inst = r then fadd s2 INSTITUTIONAL_WEIGHT else s2
          | None \<Rightarrow> s2)
   \<and> ds_dominant (compute_dominant_respect_now now subjectId media publicAgg)
       # ds_alternative (compute_dominant_respect_now now subjectId media publicAgg)
     = sort_key (\<lambda>e. - snd e) (vote_scores media publicAgg subjectId)"
  by (simp add: compute_dominant_respect_now_def weightedVote_ranking)
     (simp add: vote_scores_def Let_def map_get0_scores_set map_get0_Nil del: scores_set.simps
        split: option.splits)

text \<open>
  C1 as stated fails: humanitarian has share 0.42 in the media list and in the public list,
  so that the stated sum is the double 0.33599999999999997, and it has no score at all.
\<close>

theorem weightedVote_scores_counterexample:
  "map_get0 (vote_scores
      \<lparr>mfa_dominant = (''security_border'', 1 / 2),
       mfa_shares = [(''security_border'', 1 / 2), (''humanitarian'', dbl (42 / 100)),
                     (''rule_of_law'', dbl (8 / 100))],
       mfa_exemplars = [], mfa_source_ids = [], mfa_volume = 0\<rparr>
      \<lparr>ppa_public_prior = (''security_border'', 1 / 2),
       ppa_shares = [(''security_border'', 1 / 2), (''humanitarian'', dbl (42 / 100)),
                     (''rule_of_law'', dbl (8 / 100))],
       ppa_source_ids = []\<rparr>
      ''small_boats'') ''humanitarian'' = 0
   \<and> spec_score
      \<lparr>mfa_dominant = (''security_border'', 1 / 2),
       mfa_shares = [(''security_border'', 1 / 2), (''humanitarian'', dbl (42 / 100)),
                     (''rule_of_law'', dbl (8 / 100))],
       mfa_exemplars = [], mfa_source_ids = [], mfa_volume = 0\<rparr>
      \<lparr>ppa_public_prior = (''security_border'', 1 / 2),
       ppa_shares = [(''security_border'', 1 / 2), (''humanitarian'', dbl (42 / 100)),
                     (''rule_of_law'', dbl (8 / 100))],
       ppa_source_ids = []\<rparr>
      ''small_boats'' ''humanitarian'' = 3026418949592973 / 9007199254740992"
  by code_simp

text \<open>
  C2, as the code has it. split_dominance is true exactly when at least two framings have
  a computed score and the difference of the rank-1 and rank-2 scores, computed in double
  arithmetic, is in absolute value below the double 0.1; the ranks are those of the score
  map sorted by descending score. Only the top framing of each source has a score, so when
  no institutional framing is configured and the media and the public aggregate have the
  same top framing, one framing alone has a score and split_dominance is false.
\<close>

theorem split_dominance_iff:
  "(ds_split_dominance (compute_dominant_respect_now now subjectId media publicAgg) \<longleftrightarrow>
      2 \<le> length (vote_scores media publicAgg subjectId) \<and>
      \<bar>fsub (snd (ds_dominant (compute_dominant_respect_now now subjectId media publicAgg)))
            (snd (hd (ds_alternative (compute_dominant_respect_now now subjectId media publicAgg))))\<bar>
        < dbl (1 / 10))
   \<and> ds_dominant (compute_dominant_respect_now now subjectId media publicAgg)
       # ds_alternative (compute_dominant_respect_now now subjectId media publicAgg)
     = sort_key (\<lambda>e. - snd e) (vote_scores media publicAgg subjectId)
   \<and> (INSTITUTIONAL_RESPECT_BY_SUBJECT subjectId = None \<and>
        fst (mfa_dominant media) = fst (ppa_public_prior publicAgg)
      \<longrightarrow> \<not> ds_split_dominance (compute_dominant_respect_now now subjectId media publicAgg))"
proof -
  let ?s = "sort_key (\<lambda>e. - snd e) (vote_scores media publicAgg subjectId)"
  have len: "length ?s = length (vote_scores media publicAgg subjectId)" by simp
  have a: "ds_split_dominance (weightedVote now media publicAgg subjectId) \<longleftrightarrow>
      2 \<le> length (vote_scores media publicAgg subjectId) \<and>
      \<bar>fsub (snd (ds_dominant (weightedVote now media publicAgg subjectId)))
            (snd (hd (ds_alternative (weightedVote now media publicAgg subjectId))))\<bar>
        < dbl (1 / 10)"
  proof (cases ?s)
    case Nil
    then show ?thesis using len by (simp add: weightedVote_def Let_def)
  next
    case (Cons d rest)
    show ?thesis
    proof (cases rest)
      case Nil
      with Cons have "length (vote_scores media publicAgg subjectId) = 1" using len by simp
      then show ?thesis by (simp add: weightedVote_def Let_def)
    next
      case (Cons e rest')
      with \<open>?s = d # rest\<close> have s: "?s = d # e # rest'" by simp
      then have "2 \<le> length (vote_scores media publicAgg subjectId)" using len by simp
      then show ?thesis using s by (simp add: weightedVote_def Let_def)
    qed
  qed
  have c: "INSTITUTIONAL_RESPECT_BY_SUBJECT subjectId = None \<and>
        fst (mfa_dominant media) = fst (ppa_public_prior publicAgg)
      \<longrightarrow> \<not> ds_split_dominance (weightedVote now media publicAgg subjectId)"
    by (auto simp: weightedVote_def Let_def vote_scores_def)
  show ?thesis
    unfolding compute_dominant_respect_now_def using a c weightedVote_ranking by blast
qed

text \<open>
  Two instances. For small_boats with humanitarian at 0.375 on top of both aggregates, the
  scores are the doubles 0.3 (humanitarian) and 0.2 (security_border, institutional);
  their difference rounds to 0.09999999999999998 and the flag is true. With the same
  aggregates and no institutional configuration one framing has a score and the flag is
  false.
\<close>

theorem split_dominance_iff_witness:
  "ds_split_dominance (compute_dominant_respect_now ''2025-06-02T00:00:00.000Z'' ''small_boats''
      \<lparr>mfa_dominant = (''humanitarian'', 3 / 8),
       mfa_shares = [(''humanitarian'', 3 / 8), (''security_border'', 5 / 16), (''rule_of_law'', 5 / 16)],
       mfa_exemplars = [], mfa_source_ids = [], mfa_volume = 0\<rparr>
      \<lparr>ppa_public_prior = (''humanitarian'', 3 / 8),
       ppa_shares = [(''humanitarian'', 3 / 8), (''security_border'', 5 / 16), (''rule_of_law'', 5 / 16)],
       ppa_source_ids = []\<rparr>)
   \<and> ds_dominant (compute_dominant_respect_now ''2025-06-02T00:00:00.000Z'' ''small_boats''
      \<lparr>mfa_dominant = (''humanitarian'', 3 / 8),
       mfa_shares = [(''humanitarian'', 3 / 8), (''security_border'', 5 / 16), (''rule_of_law'', 5 / 16)],
       mfa_exemplars = [], mfa_source_ids = [], mfa_volume = 0\<rparr>
      \<lparr>ppa_public_prior = (''humanitarian'', 3 / 8),
       ppa_shares = [(''humanitarian'', 3 / 8), (''security_border'', 5 / 16), (''rule_of_law'', 5 / 16)],
       ppa_source_ids = []\<rparr>) = (''humanitarian'', dbl (3 / 10))
   \<and> ds_alternative (compute_dominant_respect_now ''2025-06-02T00:00:00.000Z'' ''small_boats''
      \<lparr>mfa_dominant = (''humanitarian'', 3 / 8),
       mfa_shares = [(''humanitarian'', 3 / 8), (''security_border'', 5 / 16), (''rule_of_law'', 5 / 16)],
       mfa_exemplars = [], mfa_source_ids = [], mfa_volume = 0\<rparr>
      \<lparr>ppa_public_prior = (''humanitarian'', 3 / 8),
       ppa_shares = [(''humanitarian'', 3 / 8), (''security_border'', 5 / 16), (''rule_of_law'', 5 / 16)],
       ppa_source_ids = []\<rparr>) = [(''security_border'', dbl (2 / 10))]
   \<and> fsub (dbl (3 / 10)) (dbl (2 / 10)) = 900719925474099 / 9007199254740992
   \<and> INSTITUTIONAL_RESPECT_BY_SUBJECT ''net_migration'' = None
   \<and> \<not> ds_split_dominance (compute_dominant_respect_now ''2025-06-02T00:00:00.000Z'' ''net_migration''
      \<lparr>mfa_dominant = (''humanitarian'', 3 / 8),
       mfa_shares = [(''humanitarian'', 3 / 8), (''security_border'', 5 / 16), (''rule_of_law'', 5 / 16)],
       mfa_exemplars = [], mfa_source_ids = [], mfa_volume = 0\<rparr>
      \<lparr>ppa_public_prior = (''humanitarian'', 3 / 8),
       ppa_shares = [(''humanitarian'', 3 / 8), (''security_border'', 5 / 16), (''rule_of_law'', 5 / 16)],
       ppa_source_ids = []\<rparr>)"
proof -
  let ?M = "\<lparr>mfa_dominant = (''humanitarian'', 3 / 8),
       mfa_shares = [(''humanitarian'', 3 / 8), (''security_border'', 5 / 16), (''rule_of_law'', 5 / 16)],
       mfa_exemplars = [], mfa_source_ids = [], mfa_volume = 0\<rparr>"
  let ?P = "\<lparr>ppa_public_prior = (''humanitarian'', 3 / 8),
       ppa_shares = [(''humanitarian'', 3 / 8), (''security_border'', 5 / 16), (''rule_of_law'', 5 / 16)],
       ppa_source_ids = []\<rparr>"
  let ?S = "compute_dominant_respect_now ''2025-06-02T00:00:00.000Z'' ''small_boats'' ?M ?P"
  let ?N = "compute_dominant_respect_now ''2025-06-02T00:00:00.000Z'' ''net_migration'' ?M ?P"
  have dom: "ds_dominant ?S = (''humanitarian'', dbl (3 / 10))"
    by code_simp
  have alt: "ds_alternative ?S = [(''security_border'', dbl (2 / 10))]"
    by code_simp
  have len: "length (vote_scores ?M ?P ''small_boats'') = 2"
    by code_simp
  have gap: "fsub (dbl (3 / 10)) (dbl (2 / 10)) = 900719925474099 / 9007199254740992"
    by code_simp
  have small: "\<bar>900719925474099 / 9007199254740992 :: rat\<bar> < dbl (1 / 10)"
    by code_simp
  have "ds_split_dominance ?S \<longleftrightarrow>
      2 \<le> length (vote_scores ?M ?P ''small_boats'') \<and>
      \<bar>fsub (snd (ds_dominant ?S)) (snd (hd (ds_alternative ?S)))\<bar> < dbl (1 / 10)"
    using split_dominance_iff by blast
  then have a: "ds_split_dominance ?S"
    unfolding dom alt len using gap small by simp
  have none: "INSTITUTIONAL_RESPECT_BY_SUBJECT ''net_migration'' = None"
    by (simp add: INSTITUTIONAL_RESPECT_BY_SUBJECT_def)
  have "INSTITUTIONAL_RESPECT_BY_SUBJECT ''net_migration'' = None \<and>
        fst (mfa_dominant ?M) = fst (ppa_public_prior ?P) \<longrightarrow> \<not> ds_split_dominance ?N"
    using split_dominance_iff by blast
  with none have b: "\<not> ds_split_dominance ?N" by simp
  from a dom alt gap none b show ?thesis by (intro conjI)
qed

text \<open>
  C2 as stated fails on its example: with the shares 0.5, 0.42 and 0.08 in both aggregates
  and no institutional configuration, one framing has a score and split_dominance is
  false. It is false as well for small_boats, whose institutional framing is
  security_border: when A is security_border one framing has a score, and when A is
  another framing the scores are 0.4 and 0.2.
\<close>

theorem split_dominance_counterexample:
  "\<not> ds_split_dominance (compute_dominant_respect_now ''2025-06-02T00:00:00.000Z'' ''net_migration''
      \<lparr>mfa_dominant = (''security_border'', 1 / 2),
       mfa_shares = [(''security_border'', 1 / 2), (''humanitarian'', dbl (42 / 100)),
                     (''rule_of_law'', dbl (8 / 100))],
       mfa_exemplars = [], mfa_source_ids = [], mfa_volume = 0\<rparr>
      \<lparr>ppa_public_prior = (''security_border'', 1 / 2),
       ppa_shares = [(''security_border'', 1 / 2), (''humanitarian'', dbl (42 / 100)),
                     (''rule_of_law'', dbl (8 / 100))],
       ppa_source_ids = []\<rparr>)
   \<and> vote_scores
      \<lparr>mfa_dominant = (''security_border'', 1 / 2),
       mfa_shares = [(''security_border'', 1 / 2), (''humanitarian'', dbl (42 / 100)),
                     (''rule_of_law'', dbl (8 / 100))],
       mfa_exemplars = [], mfa_source_ids = [], mfa_volume = 0\<rparr>
      \<lparr>ppa_public_prior = (''security_border'', 1 / 2),
       ppa_shares = [(''security_border'', 1 / 2), (''humanitarian'', dbl (42 / 100)),
                     (''rule_of_law'', dbl (8 / 100))],
       ppa_source_ids = []\<rparr>
      ''net_migration'' = [(''security_border'', dbl (4 / 10))]
   \<and> \<not> ds_split_dominance (compute_dominant_respect_now ''2025-06-02T00:00:00.000Z'' ''small_boats''
      \<lparr>mfa_dominant = (''security_border'', 1 / 2),
       mfa_shares = [(''security_border'', 1 / 2), (''humanitarian'', dbl (42 / 100)),
                     (''rule_of_law'', dbl (8 / 100))],
       mfa_exemplars = [], mfa_source_ids = [], mfa_volume = 0\<rparr>
      \<lparr>ppa_public_prior = (''security_border'', 1 / 2),
       ppa_shares = [(''security_border'', 1 / 2), (''humanitarian'', dbl (42 / 100)),
                     (''rule_of_law'', dbl (8 / 100))],
       ppa_source_ids = []\<rparr>)
   \<and> \<not> ds_split_dominance (compute_dominant_respect_now ''2025-06-02T00:00:00.000Z'' ''small_boats''
      \<lparr>mfa_dominant = (''humanitarian'', 1 / 2),
       mfa_shares = [(''humanitarian'', 1 / 2), (''security_border'', dbl (42 / 100)),
                     (''rule_of_law'', dbl (8 / 100))],
       mfa_exemplars = [], mfa_source_ids = [], mfa_volume = 0\<rparr>
      \<lparr>ppa_public_prior = (''humanitarian'', 1 / 2),
       ppa_shares = [(''humanitarian'', 1 / 2), (''security_border'', dbl (42 / 100)),
                     (''rule_of_law'', dbl (8 / 100))],
       ppa_source_ids = []\<rparr>)
   \<and> vote_scores
      \<lparr>mfa_dominant = (''humanitarian'', 1 / 2),
       mfa_shares = [(''humanitarian'', 1 / 2), (''security_border'', dbl (42 / 100)),
                     (''rule_of_law'', dbl (8 / 100))],
       mfa_exemplars = [], mfa_source_ids = [], mfa_volume = 0\<rparr>
      \<lparr>ppa_public_prior = (''humanitarian'', 1 / 2),
       ppa_shares = [(''humanitarian'', 1 / 2), (''security_border'', dbl (42 / 100)),
                     (''rule_of_law'', dbl (8 / 100))],
       ppa_source_ids = []\<rparr>
      ''small_boats'' = [(''humanitarian'', dbl (4 / 10)), (''security_border'', dbl (2 / 10))]"
  by code_simp

text \<open>
  C4, as the code has it. Framings with one and the same score keep, in the ranking
  (the dominant framing followed by the alternatives), the order in which they entered
  the score map: the top framing of the media aggregate first, then that of the public
  aggregate, then the institutional framing. The catalog order plays no part.
\<close>

theorem dominance_ties_insertion_order:
  "filter (\<lambda>e. snd e = s)
      (ds_dominant (compute_dominant_respect_now now subjectId media publicAgg)
       # ds_alternative (compute_dominant_respect_now now subjectId media publicAgg))
     = filter (\<lambda>e. snd e = s) (vote_scores media publicAgg subjectId)
   \<and> map fst (vote_scores media publicAgg subjectId)
     = dedupe ([fst (mfa_dominant media), fst (ppa_public_prior publicAgg)]
         @ (case INSTITUTIONAL_RESPECT_BY_SUBJECT subjectId of
              Some inst \<Rightarrow> [inst_respect_id inst] | None \<Rightarrow> []))"
proof -
  have "filter (\<lambda>e. - snd e = - s) (sort_key (\<lambda>e. - snd e) (vote_scores media publicAgg subjectId))
      = filter (\<lambda>e. - snd e = - s) (vote_scores media publicAgg subjectId)"
    by (rule sort_key_stable)
  then have a: "filter (\<lambda>e. snd e = s) (sort_key (\<lambda>e. - snd e) (vote_scores media publicAgg subjectId))
      = filter (\<lambda>e. snd e = s) (vote_scores media publicAgg subjectId)"
    by simp
  have b: "map fst (vote_scores media publicAgg subjectId)
     = dedupe ([fst (mfa_dominant media), fst (ppa_public_prior publicAgg)]
         @ (case INSTITUTIONAL_RESPECT_BY_SUBJECT subjectId of
              Some inst \<Rightarrow> [inst_respect_id inst] | None \<Rightarrow> []))"
    by (auto simp: vote_scores_def Let_def keys_scores_set split: option.splits)
  show ?thesis
    unfolding compute_dominant_respect_now_def weightedVote_ranking using a b by simp
qed

text \<open>
  C4 as stated fails. Without an institutional framing, humanitarian (media, 0.35 at
  weight 0.45) and security_border (public, 0.45 at weight 0.35) have the same score, the
  double 0.1575; security_border comes first in the catalog, and humanitarian is the
  winner. For small_boats, rule_of_law (media) and humanitarian (public) tie in the same
  way behind security_border; humanitarian comes first in the catalog, and rule_of_law is
  the first alternative.
\<close>

theorem dominance_ties_counterexample:
  "ds_dominant (compute_dominant_respect_now ''2025-06-02T00:00:00.000Z'' ''net_migration''
      \<lparr>mfa_dominant = (''humanitarian'', dbl (35 / 100)),
       mfa_shares = [(''humanitarian'', dbl (35 / 100)), (''security_border'', dbl (33 / 100)),
                     (''rule_of_law'', dbl (32 / 100))],
       mfa_exemplars = [], mfa_source_ids = [], mfa_volume = 0\<rparr>
      \<lparr>ppa_public_prior = (''security_border'', dbl (45 / 100)),
       ppa_shares = [(''security_border'', dbl (45 / 100)), (''humanitarian'', dbl (30 / 100)),
                     (''rule_of_law'', dbl (25 / 100))],
       ppa_source_ids = []\<rparr>) = (''humanitarian'', 5674535530486825 / 36028797018963968)
   \<and> ds_alternative (compute_dominant_respect_now ''2025-06-02T00:00:00.000Z'' ''net_migration''
      \<lparr>mfa_dominant = (''humanitarian'', dbl (35 / 100)),
       mfa_shares = [(''humanitarian'', dbl (35 / 100)), (''security_border'', dbl (33 / 100)),
                     (''rule_of_law'', dbl (32 / 100))],
       mfa_exemplars = [], mfa_source_ids = [], mfa_volume = 0\<rparr>
      \<lparr>ppa_public_prior = (''security_border'', dbl (45 / 100)),
       ppa_shares = [(''security_border'', dbl (45 / 100)), (''humanitarian'', dbl (30 / 100)),
                     (''rule_of_law'', dbl (25 / 100))],
       ppa_source_ids = []\<rparr>) = [(''security_border'', 5674535530486825 / 36028797018963968)]
   \<and> index_of ''security_border'' PIPELINE_RESPECT_IDS < index_of ''humanitarian'' PIPELINE_RESPECT_IDS
   \<and> ds_alternative (compute_dominant_respect_now ''2025-06-02T00:00:00.000Z'' ''small_boats''
      \<lparr>mfa_dominant = (''rule_of_law'', dbl (35 / 100)),
       mfa_shares = [(''rule_of_law'', dbl (35 / 100)), (''security_border'', dbl (33 / 100)),
                     (''humanitarian'', dbl (32 / 100))],
       mfa_exemplars = [], mfa_source_ids = [], mfa_volume = 0\<rparr>
      \<lparr>ppa_public_prior = (''humanitarian'', dbl (45 / 100)),
       ppa_shares = [(''humanitarian'', dbl (45 / 100)), (''security_border'', dbl (30 / 100)),
                     (''rule_of_law'', dbl (25 / 100))],
       ppa_source_ids = []\<rparr>) = [(''rule_of_law'', 5674535530486825 / 36028797018963968),
              (''humanitarian'', 5674535530486825 / 36028797018963968)]
   \<and> index_of ''humanitarian'' PIPELINE_RESPECT_IDS < index_of ''rule_of_law'' PIPELINE_RESPECT_IDS"
  by code_simp

section \<open>The polling aggregator\<close>

lemma poll_fold_get:
  "map_get0 (foldl (poll_option_step poll) out0 idx) r
     = map_get0 out0 r + (\<Sum>i\<leftarrow>idx. option_share poll r i)"
  by (induction idx arbitrary: out0)
     (auto simp: poll_option_step_def option_share_def Let_def map_get0_map_add split: option.splits)

lemma poll_fold_sum:
  "sum_list (map snd (foldl (poll_option_step poll) out0 idx))
     = sum_list (map snd out0)
       + (\<Sum>i\<leftarrow>filter (\<lambda>i. option_pattern (rp_options poll ! i) \<noteq> None) idx. result_at (rp_results poll) i)"
  by (induction idx arbitrary: out0)
     (auto simp: poll_option_step_def Let_def sum_map_add split: option.splits)

lemma poll_fold_Nil:
  "foldl (poll_option_step poll) out0 idx = [] \<longleftrightarrow>
     out0 = [] \<and> filter (\<lambda>i. option_pattern (rp_options poll ! i) \<noteq> None) idx = []"
  by (induction idx arbitrary: out0)
     (auto simp: poll_option_step_def Let_def map_add_not_Nil split: option.splits)

lemma poll_fold_distinct:
  "distinct (map fst out0) \<Longrightarrow> distinct (map fst (foldl (poll_option_step poll) out0 idx))"
  by (induction idx arbitrary: out0)
     (auto simp: poll_option_step_def Let_def distinct_map_add split: option.splits)

text \<open>
  C5, as the code has it. Each poll option is mapped to the first pattern of the ordered
  table that matches it and adds its result share (0 when the poll has no result at that
  index) to that pattern's framing; an option that matches no pattern adds nothing. Only
  when no option of the poll matches any pattern is the mapping the single default entry,
  security_border with share 0.5. When some option matches, the mapped shares sum to the
  result shares of the matching options.
\<close>

theorem mapPollToRespectShare_shares:
  "(matching_options poll = [] \<longrightarrow> mapPollToRespectShare poll = [(''security_border'', 1 / 2)])
   \<and> (matching_options poll \<noteq> [] \<longrightarrow>
        (\<forall>r. map_get0 (mapPollToRespectShare poll) r
               = (\<Sum>i\<leftarrow>[0 ..< length (rp_options poll)]. option_share poll r i))
        \<and> sum_list (map snd (mapPollToRespectShare poll))
            = (\<Sum>i\<leftarrow>matching_options poll. result_at (rp_results poll) i)
        \<and> distinct (map fst (mapPollToRespectShare poll)))"
proof (cases "matching_options poll = []")
  case True
  then have "foldl (poll_option_step poll) [] [0 ..< length (rp_options poll)] = []"
    by (simp add: poll_fold_Nil matching_options_def)
  with True show ?thesis by (simp add: mapPollToRespectShare_def)
next
  case False
  let ?out = "foldl (poll_option_step poll) [] [0 ..< length (rp_options poll)]"
  from False have ne: "?out \<noteq> []" by (simp add: poll_fold_Nil matching_options_def)
  then have eq: "mapPollToRespectShare poll = ?out" by (simp add: mapPollToRespectShare_def Let_def)
  have "distinct (map fst ?out)" by (rule poll_fold_distinct) simp
  then show ?thesis
    using False unfolding eq
    by (simp add: poll_fold_get poll_fold_sum map_get0_Nil matching_options_def)
qed

text \<open>
  C5 as stated fails: the option "Oppose" matches no pattern and its 0.42 is dropped, so
  the mapped shares sum to 0.58 and the result shares to 1.
\<close>

theorem mapPollToRespectShare_counterexample:
  "sum_list (map snd (mapPollToRespectShare
      \<lparr>rp_id = ''poll1'', rp_pollster = ''YouGov'', rp_question = ''What should the government do?'',
       rp_options = [''Support tougher measures'', ''Oppose''], rp_results = [58 / 100, 42 / 100],
       rp_fieldwork_dates = ''2025-05-01 to 2025-05-03'', rp_published_at = ''2025-05-05T00:00:00.000Z'',
       rp_url = None, rp_sample_size = Some 2000\<rparr>)) = 58 / 100
   \<and> sum_list (rp_results
      \<lparr>rp_id = ''poll1'', rp_pollster = ''YouGov'', rp_question = ''What should the government do?'',
       rp_options = [''Support tougher measures'', ''Oppose''], rp_results = [58 / 100, 42 / 100],
       rp_fieldwork_dates = ''2025-05-01 to 2025-05-03'', rp_published_at = ''2025-05-05T00:00:00.000Z'',
       rp_url = None, rp_sample_size = Some 2000\<rparr>) = 1
   \<and> option_pattern ''Oppose'' = None"
  by code_simp

theorem mapPollToRespectShare_shares_witness:
  "matching_options
      \<lparr>rp_id = ''poll2'', rp_pollster = ''Ipsos'', rp_question = ''Which comes closest to your view?'',
       rp_options = [''Stop the crossings'', ''Protect refugees'', ''Not sure''],
       rp_results = [45 / 100, 40 / 100, 15 / 100],
       rp_fieldwork_dates = ''2025-04-01 to 2025-04-02'', rp_published_at = ''2025-04-04T00:00:00.000Z'',
       rp_url = None, rp_sample_size = Some 1000\<rparr> = [0, 1]
   \<and> sum_list (map snd (mapPollToRespectShare
      \<lparr>rp_id = ''poll2'', rp_pollster = ''Ipsos'', rp_question = ''Which comes closest to your view?'',
       rp_options = [''Stop the crossings'', ''Protect refugees'', ''Not sure''],
       rp_results = [45 / 100, 40 / 100, 15 / 100],
       rp_fieldwork_dates = ''2025-04-01 to 2025-04-02'', rp_published_at = ''2025-04-04T00:00:00.000Z'',
       rp_url = None, rp_sample_size = Some 1000\<rparr>)) = 85 / 100"
proof -
  let ?p = "\<lparr>rp_id = ''poll2'', rp_pollster = ''Ipsos'', rp_question = ''Which comes closest to your view?'',
       rp_options = [''Stop the crossings'', ''Protect refugees'', ''Not sure''],
       rp_results = [45 / 100, 40 / 100, 15 / 100],
       rp_fieldwork_dates = ''2025-04-01 to 2025-04-02'', rp_published_at = ''2025-04-04T00:00:00.000Z'',
       rp_url = None, rp_sample_size = Some 1000\<rparr>"
  have m: "matching_options ?p = [0, 1]" by code_simp
  then have "matching_options ?p \<noteq> []" by simp
  with mapPollToRespectShare_shares[of ?p]
  have "sum_list (map snd (mapPollToRespectShare ?p))
            = (\<Sum>i\<leftarrow>matching_options ?p. result_at (rp_results ?p) i)" by blast
  then show ?thesis unfolding m by (simp add: result_at_def)
qed

section \<open>The media aggregator\<close>

lemma foldl_plus: "foldl (+) a xs = a + sum_list (xs :: rat list)"
  by (induction xs arbitrary: a) (auto simp: algebra_simps)

lemma sum_insort_key: "sum_list (map g (insort_key f x xs)) = (g :: 'a \<Rightarrow> rat) x + sum_list (map g xs)"
  by (induction xs) (auto simp: algebra_simps)

lemma sum_sort_key: "sum_list (map g (sort_key f xs)) = sum_list (map (g :: 'a \<Rightarrow> rat) xs)"
  by (induction xs) (auto simp: sum_insort_key)

lemma sum_normalised:
  "sum_list (map snd (normalised_shares m)) = sum_list (map snd m) / total_or_1 m"
proof -
  have "sum_list (map snd (map (\<lambda>(respect_id, s). (respect_id, s / t)) m)) = sum_list (map snd m) / t" for t
    by (induction m) (auto simp: add_divide_distrib)
  then show ?thesis by (simp add: normalised_shares_def Let_def sum_sort_key)
qed

lemma normalised_Nil: "normalised_shares m = [] \<longleftrightarrow> m = []"
proof -
  have "length (normalised_shares m) = length m" by (simp add: normalised_shares_def Let_def)
  then show ?thesis by (metis length_0_conv)
qed

lemma fold_map_add_sum:
  "sum_list (map snd (foldl (\<lambda>m c. map_add m (f c) (w c)) m0 cs))
     = sum_list (map snd m0) + sum_list (map w cs)"
  by (induction cs arbitrary: m0) (auto simp: sum_map_add)

lemma fold_map_add_Nil:
  "foldl (\<lambda>m c. map_add m (f c) (w c)) m0 cs = [] \<longleftrightarrow> m0 = [] \<and> cs = []"
  by (induction cs arbitrary: m0) (auto simp: map_add_not_Nil)

lemma recencyDecay_pos: "0 < recencyDecay d"
  by (simp add: recencyDecay_def max_def)

lemma item_weight_pos: "0 < ci_confidence c \<Longrightarrow> 0 < item_weight getTime now rawMedia c"
  by (simp add: item_weight_def Let_def recencyDecay_pos)

lemma sum_list_pos: "xs \<noteq> [] \<Longrightarrow> (\<And>x. x \<in> set xs \<Longrightarrow> 0 < x) \<Longrightarrow> 0 < sum_list (xs :: rat list)"
  by (induction xs) (auto simp: add_pos_nonneg sum_list_nonneg less_imp_le)

lemma media_shares_eq:
  "mfa_shares (aggregate_media_framing getTime now sid classified rawMedia)
     = normalised_shares
         (media_byRespect getTime now rawMedia (filter (\<lambda>c. ci_item_type c = Media) classified))"
  by (simp add: aggregate_media_framing_def Let_def)

lemma map_filter_take_5: "length (List.map_filter f (take 5 xs)) \<le> 5"
proof -
  have "length (List.map_filter f (take 5 xs)) \<le> length (take 5 xs)"
    unfolding map_filter_def length_map by (rule length_filter_le)
  also have "\<dots> \<le> 5" by simp
  finally show ?thesis .
qed

lemma exemplars_cap: "min (length (List.map_filter f (take 5 xs))) 6 \<le> 5"
  using map_filter_take_5[of f xs] by simp

text \<open>
  C6. The claim asks for the 6 highest-weight items. The code cuts the weight-sorted list
  to 5 entries before it looks the raw items up and caps the result at 6, so the list of
  exemplars never has more than 5 entries; with six classified headlines that all have a
  raw item it has the five heaviest.
\<close>

theorem exemplars_at_most_five:
  "length (mfa_exemplars (aggregate_media_framing getTime now sid classified rawMedia)) \<le> 5
   \<and> map ex_source_id (mfa_exemplars
       (aggregate_media_framing (fixed_getTime 1748736000000) 1748822400000 ''small_boats''
        [labelled ''h1'' (9 / 10), labelled ''h2'' (8 / 10), labelled ''h3'' (7 / 10),
         labelled ''h4'' (6 / 10), labelled ''h5'' (5 / 10), labelled ''h6'' (4 / 10)]
        [headline ''h1'', headline ''h2'', headline ''h3'', headline ''h4'', headline ''h5'',
         headline ''h6'']))
     = [''h1'', ''h2'', ''h3'', ''h4'', ''h5'']"
proof -
  have "length (mfa_exemplars (aggregate_media_framing getTime now sid classified rawMedia)) \<le> 5"
    by (simp add: aggregate_media_framing_def Let_def exemplars_cap)
  moreover have "map ex_source_id (mfa_exemplars
       (aggregate_media_framing (fixed_getTime 1748736000000) 1748822400000 ''small_boats''
        [labelled ''h1'' (9 / 10), labelled ''h2'' (8 / 10), labelled ''h3'' (7 / 10),
         labelled ''h4'' (6 / 10), labelled ''h5'' (5 / 10), labelled ''h6'' (4 / 10)]
        [headline ''h1'', headline ''h2'', headline ''h3'', headline ''h4'', headline ''h5'',
         headline ''h6'']))
     = [''h1'', ''h2'', ''h3'', ''h4'', ''h5'']"
    by code_simp
  ultimately show ?thesis by simp
qed

lemma media_shares_sum_pos:
  "(filter (\<lambda>c. ci_item_type c = Media) classified \<noteq> [] \<and>
      (\<forall>c \<in> set classified. ci_item_type c = Media \<longrightarrow> 0 < ci_confidence c)
      \<longrightarrow> sum_list (map snd (mfa_shares (aggregate_media_framing getTime now sid classified rawMedia))) = 1)
   \<and> (mfa_shares (aggregate_media_framing getTime now sid classified rawMedia) = []
        \<longleftrightarrow> filter (\<lambda>c. ci_item_type c = Media) classified = [])
   \<and> (filter (\<lambda>c. ci_item_type c = Media) classified = []
      \<longrightarrow> total_or_1 (media_byRespect getTime now rawMedia
             (filter (\<lambda>c. ci_item_type c = Media) classified)) = 1)"
proof -
  let ?mc = "filter (\<lambda>c. ci_item_type c = Media) classified"
  let ?by = "media_byRespect getTime now rawMedia ?mc"
  have tot: "sum_list (map snd ?by) = sum_list (map (item_weight getTime now rawMedia) ?mc)"
    by (simp add: media_byRespect_def fold_map_add_sum)
  have a: "sum_list (map snd (normalised_shares ?by)) = 1"
    if ne: "?mc \<noteq> []"
      and pos: "\<forall>c \<in> set classified. ci_item_type c = Media \<longrightarrow> 0 < ci_confidence c"
  proof -
    have "0 < sum_list (map (item_weight getTime now rawMedia) ?mc)"
      using ne pos by (intro sum_list_pos) (auto simp: item_weight_pos)
    then have "0 < sum_list (map snd ?by)" using tot by simp
    then show ?thesis by (simp add: sum_normalised total_or_1_def foldl_plus Let_def)
  qed
  have b: "normalised_shares ?by = [] \<longleftrightarrow> ?mc = []"
    by (simp add: normalised_Nil media_byRespect_def fold_map_add_Nil)
  have c: "?mc = [] \<longrightarrow> total_or_1 ?by = 1"
    by (simp add: media_byRespect_def total_or_1_def)
  show ?thesis unfolding media_shares_eq using a b c by blast
qed

lemma classify_media_batch_conf_pos:
  "c \<in> set (classify_media_batch apiKey reply now subjectId items) \<Longrightarrow> 0 < ci_confidence c"
proof -
  have kw: "0 < ci_confidence (classifyMediaItem now subjectId m)" for m
    using classifyMediaItem_result[of now subjectId m] by (simp add: Let_def)
  have llm: "0 < ci_confidence (llm_item now subjectId cs im)" for cs im
    by (simp add: llm_item_def Let_def)
  assume "c \<in> set (classify_media_batch apiKey reply now subjectId items)"
  then show ?thesis
    using kw llm
    by (auto simp: classify_media_batch_def classifyMediaWithLLM_def Let_def
        split: if_splits oracle_reply.splits)
qed

lemma refresh_classify_conf_pos:
  assumes "c \<in> set (refresh_classify apiKey reply now subjectId rawMedia rawPolls rawMetrics)"
  shows "0 < ci_confidence c"
proof -
  have poll: "0 < ci_confidence (classifyPollItem now subjectId p)" for p
    using classifyPollItem_result[of now subjectId p] by (simp add: Let_def)
  have metric: "0 < ci_confidence (classifyMetricItem now subjectId k)" for k
    using classifyMetricItem_result[of now subjectId k] by (simp add: Let_def)
  have pre: "0 < ci_confidence (prelabelled_item now subjectId m)" for m
    by (simp add: prelabelled_item_def)
  from assms show ?thesis
    using poll metric pre classify_media_batch_conf_pos
    by (auto simp: refresh_classify_def)
qed

text \<open>
  C8. On every list of classified items that the refresh builds (pre-labelled items at
  confidence 0.9, items classified by the oracle at 0.8, items of the keyword path at 0.3
  or more), with timestamps that parse: when at least one media item is classified, the
  shares of the media aggregate sum to 1 within 1e-6 (to 1 exactly, in exact arithmetic);
  the list of shares is empty, or sums to 0, only when no media item is classified, and
  then the denominator is the floor 1.
\<close>

theorem media_shares_sum:
  "(let classified = refresh_classify apiKey reply now subjectId rawMedia rawPolls rawMetrics;
        mediaClassified = filter (\<lambda>c. ci_item_type c = Media) classified;
        agg = refresh_media_aggregate getTime now_ms apiKey reply now subjectId rawMedia rawPolls rawMetrics
    in (mediaClassified \<noteq> [] \<longrightarrow> \<bar>sum_list (map snd (mfa_shares agg)) - 1\<bar> \<le> 1 / 10 ^ 6)
     \<and> (mfa_shares agg = [] \<or> sum_list (map snd (mfa_shares agg)) = 0 \<longrightarrow> mediaClassified = [])
     \<and> (mediaClassified = [] \<longrightarrow>
          mfa_shares agg = []
          \<and> total_or_1 (media_byRespect getTime now_ms rawMedia mediaClassified) = 1))"
proof -
  let ?cl = "refresh_classify apiKey reply now subjectId rawMedia rawPolls rawMetrics"
  let ?mc = "filter (\<lambda>c. ci_item_type c = Media) ?cl"
  let ?agg = "aggregate_media_framing getTime now_ms subjectId ?cl rawMedia"
  have pos: "\<forall>c \<in> set ?cl. ci_item_type c = Media \<longrightarrow> 0 < ci_confidence c"
    using refresh_classify_conf_pos by blast
  note g = media_shares_sum_pos[of ?cl getTime now_ms subjectId rawMedia]
  have one: "sum_list (map snd (mfa_shares ?agg)) = 1" if "?mc \<noteq> []"
    using g that pos by blast
  have emp: "mfa_shares ?agg = [] \<longleftrightarrow> ?mc = []"
    using g by blast
  have fl: "?mc = [] \<longrightarrow> total_or_1 (media_byRespect getTime now_ms rawMedia ?mc) = 1"
    using g by blast
  have a: "?mc \<noteq> [] \<longrightarrow> \<bar>sum_list (map snd (mfa_shares ?agg)) - 1\<bar> \<le> 1 / 10 ^ 6"
    using one by simp
  have b: "mfa_shares ?agg = [] \<or> sum_list (map snd (mfa_shares ?agg)) = 0 \<longrightarrow> ?mc = []"
    using one emp by fastforce
  have c: "?mc = [] \<longrightarrow> mfa_shares ?agg = []
      \<and> total_or_1 (media_byRespect getTime now_ms rawMedia ?mc) = 1"
    using emp fl by blast
  show ?thesis
    unfolding Let_def refresh_media_aggregate_def using a b c by blast
qed

text \<open>
  An instance with two framings: a curated headline labelled humanitarian (confidence 0.9)
  and a headline that the keyword classifier assigns to security_border (confidence 0.95),
  published on the same day.
\<close>

theorem media_shares_sum_witness:
  "mfa_shares (refresh_media_aggregate (fixed_getTime 1748736000000) 1748822400000 False Unparseable
      ''2025-06-02T00:00:00.000Z'' ''small_boats'' [curated ''h1'' ''humanitarian'', headline ''h2''] [] [])
     = [(''security_border'', 19 / 37), (''humanitarian'', 18 / 37)]
   \<and> \<bar>sum_list (map snd (mfa_shares (refresh_media_aggregate (fixed_getTime 1748736000000) 1748822400000
        False Unparseable ''2025-06-02T00:00:00.000Z'' ''small_boats''
        [curated ''h1'' ''humanitarian'', headline ''h2''] [] []))) - 1\<bar> \<le> 1 / 10 ^ 6"
proof -
  let ?cl = "refresh_classify False Unparseable ''2025-06-02T00:00:00.000Z'' ''small_boats''
      [curated ''h1'' ''humanitarian'', headline ''h2''] [] []"
  let ?agg = "refresh_media_aggregate (fixed_getTime 1748736000000) 1748822400000 False Unparseable
      ''2025-06-02T00:00:00.000Z'' ''small_boats'' [curated ''h1'' ''humanitarian'', headline ''h2''] [] []"
  have sh: "mfa_shares ?agg = [(''security_border'', 19 / 37), (''humanitarian'', 18 / 37)]"
    by code_simp
  have ne: "filter (\<lambda>c. ci_item_type c = Media) ?cl \<noteq> []"
    by (simp add: refresh_classify_def prelabelled_item_def has_label_def curated_def headline_def)
  have "filter (\<lambda>c. ci_item_type c = Media) ?cl \<noteq> []
      \<longrightarrow> \<bar>sum_list (map snd (mfa_shares ?agg)) - 1\<bar> \<le> 1 / 10 ^ 6"
    using media_shares_sum[where apiKey = False and reply = Unparseable
        and now = "''2025-06-02T00:00:00.000Z''" and subjectId = "''small_boats''"
        and rawMedia = "[curated ''h1'' ''humanitarian'', headline ''h2'']"
        and rawPolls = "[]" and rawMetrics = "[]"
        and getTime = "fixed_getTime 1748736000000" and now_ms = 1748822400000]
    unfolding Let_def by blast
  with ne have "\<bar>sum_list (map snd (mfa_shares ?agg)) - 1\<bar> \<le> 1 / 10 ^ 6" by blast
  with sh show ?thesis by (rule conjI)
qed

text \<open>
  C10. When no media item is classified, the media aggregate has no shares and reports the
  dominant framing security_border with share 0.5; when no poll is classified, the polling
  aggregate reports the public prior security_border with share 0.5.
\<close>

theorem empty_input_defaults:
  "(filter (\<lambda>c. ci_item_type c = Media) classified = []
      \<longrightarrow> mfa_dominant (aggregate_media_framing getTime now sid classified rawMedia)
            = (''security_border'', 1 / 2)
          \<and> mfa_shares (aggregate_media_framing getTime now sid classified rawMedia) = [])
   \<and> (filter (\<lambda>c. ci_item_type c = Poll) classified = []
      \<longrightarrow> ppa_public_prior (aggregate_public_polling sid classified rawPolls)
            = (''security_border'', 1 / 2)
          \<and> ppa_shares (aggregate_public_polling sid classified rawPolls) = [])"
  by (simp add: aggregate_media_framing_def aggregate_public_polling_def Let_def media_byRespect_def
      poll_byRespect_def normalised_shares_def)

theorem empty_input_defaults_witness:
  "mfa_dominant (aggregate_media_framing (fixed_getTime 1748736000000) 1748822400000 ''small_boats''
      [] [headline ''h1'']) = (''security_border'', 1 / 2)
   \<and> ppa_public_prior (aggregate_public_polling ''small_boats'' [] []) = (''security_border'', 1 / 2)"
  using empty_input_defaults[where classified = "[]" and getTime = "fixed_getTime 1748736000000"
      and now = 1748822400000 and sid = "''small_boats''" and rawMedia = "[headline ''h1'']"
      and rawPolls = "[]"]
  by simp

section \<open>Media classification by the external oracle\<close>

text \<open>
  C3. With the API key set, a request that throws (and a reply whose shape makes the
  classifier throw) sends every item of the batch through the keyword classifier. A reply
  that is not JSON does not: \<open>classifyMediaWithLLM\<close> catches the parse error and returns the
  empty list, which the caller appends as it is, so the items of the batch get no
  ClassifiedItem at all.
\<close>

theorem llm_unparseable_reply_drops_batch:
  "classify_media_batch True Unparseable now subjectId items = []
   \<and> classify_media_batch True CreateRejects now subjectId items
       = map (classifyMediaItem now subjectId) items
   \<and> classify_media_batch True BadShape now subjectId items
       = map (classifyMediaItem now subjectId) items
   \<and> length (classify_media_batch True (Parsed cs) now subjectId items) = length items
   \<and> length (classify_media_batch True Unparseable ''2025-06-02T00:00:00.000Z'' ''small_boats''
        [headline ''h1'']) = 0"
  by (simp add: classify_media_batch_def classifyMediaWithLLM_def Let_def)

section \<open>The passage extractor\<close>

lemma trim_nonempty_iff: "trim s \<noteq> [] \<longleftrightarrow> (\<exists>c \<in> set s. \<not> is_space c)"
proof -
  have d: "dropWhile P xs \<noteq> [] \<longleftrightarrow> (\<exists>x \<in> set xs. \<not> P x)" for P :: "char \<Rightarrow> bool" and xs
    by (simp add: dropWhile_eq_Nil_conv)
  have e: "(\<exists>c \<in> set (dropWhile P xs). \<not> P c) \<longleftrightarrow> (\<exists>x \<in> set xs. \<not> P x)" for P :: "char \<Rightarrow> bool" and xs
  proof
    assume "\<exists>c \<in> set (dropWhile P xs). \<not> P c"
    then show "\<exists>x \<in> set xs. \<not> P x" by (meson set_dropWhileD)
  next
    assume "\<exists>x \<in> set xs. \<not> P x"
    then have ne: "dropWhile P xs \<noteq> []" by (simp add: d)
    then have "\<not> P (hd (dropWhile P xs))" by (rule hd_dropWhile)
    moreover have "hd (dropWhile P xs) \<in> set (dropWhile P xs)" using ne by simp
    ultimately show "\<exists>c \<in> set (dropWhile P xs). \<not> P c" by blast
  qed
  have "trim s \<noteq> [] \<longleftrightarrow> dropWhile is_space (rev (dropWhile is_space s)) \<noteq> []"
    by (simp add: trim_def)
  also have "\<dots> \<longleftrightarrow> (\<exists>c \<in> set (dropWhile is_space s). \<not> is_space c)"
    by (simp add: d)
  also have "\<dots> \<longleftrightarrow> (\<exists>c \<in> set s. \<not> is_space c)"
    by (rule e)
  finally show ?thesis .
qed

lemma slice_split:
  assumes "s \<le> a" "a \<le> b" "b \<le> e"
  shows "slice t s e = slice t s a @ slice t a b @ slice t b e"
proof -
  have "take (e - s) (drop s t) = take ((a - s) + ((b - a) + (e - b))) (drop s t)"
    using assms by simp
  also have "\<dots> = take (a - s) (drop s t) @ take ((b - a) + (e - b)) (drop (a - s) (drop s t))"
    by (rule take_add)
  also have "take ((b - a) + (e - b)) (drop (a - s) (drop s t))
      = take (b - a) (drop (a - s) (drop s t)) @ take (e - b) (drop (b - a) (drop (a - s) (drop s t)))"
    by (rule take_add)
  finally show ?thesis using assms by (simp add: slice_def)
qed

lemma slice_nonblank_mono:
  assumes "trim (slice t a b) \<noteq> []" "s \<le> a" "b \<le> e"
  shows "trim (slice t s e) \<noteq> []"
proof (cases "a \<le> b")
  case True
  from slice_split[OF assms(2) True assms(3)] assms(1) show ?thesis
    by (auto simp: trim_nonempty_iff)
next
  case False
  then have "slice t a b = []" by (simp add: slice_def)
  with assms(1) show ?thesis by (simp add: trim_def)
qed

lemma slice_nonblank_less: "trim (slice t a b) \<noteq> [] \<Longrightarrow> a < b"
  by (cases "a < b") (auto simp: slice_def trim_def)

lemma segs_ok_mono: "segs_ok t pos' segs \<Longrightarrow> pos \<le> pos' \<Longrightarrow> segs_ok t pos segs"
  by (auto simp: segs_ok_def)

lemma segs_ok_Cons:
  "segs_ok t pos' segs \<Longrightarrow> trim (slice t pos e) \<noteq> [] \<Longrightarrow> e \<le> pos' \<Longrightarrow>
     segs_ok t pos (\<lparr>seg_text = x, seg_start = pos, seg_end = e\<rparr> # segs)"
  using slice_nonblank_less[of t pos e] by (fastforce simp: segs_ok_def)

lemma sentence_end_bounds: "pos < length t \<Longrightarrow> pos < sentence_end t pos \<and> sentence_end t pos \<le> length t"
  unfolding sentence_end_def indexOf_def Let_def by (auto split: option.splits)

lemma getSentences_from_ok: "segs_ok t pos (getSentences_from t pos)"
proof (induction t pos rule: getSentences_from.induct)
  case (1 t pos)
  show ?case
  proof (cases "pos < length t")
    case False
    then show ?thesis by (subst getSentences_from.simps) (simp add: segs_ok_def)
  next
    case True
    let ?e = "sentence_end t pos"
    let ?pos' = "if ?e < length t then ?e else length t"
    from sentence_end_bounds[OF True] have b: "pos < ?e" "?e \<le> length t" by simp_all
    have ih: "segs_ok t ?pos' (getSentences_from t ?pos')"
      using "1.IH"[OF True refl refl] .
    have le: "?e \<le> ?pos'" "pos \<le> ?pos'" using b by auto
    show ?thesis
    proof (cases "trim (slice t pos ?e) = []")
      case True
      then have "getSentences_from t pos = getSentences_from t ?pos'"
        using \<open>pos < length t\<close> by (subst getSentences_from.simps) (simp add: Let_def)
      with ih le show ?thesis by (auto intro: segs_ok_mono)
    next
      case False
      then have "getSentences_from t pos =
          \<lparr>seg_text = trim (slice t pos ?e), seg_start = pos, seg_end = ?e\<rparr> # getSentences_from t ?pos'"
        using \<open>pos < length t\<close> by (subst getSentences_from.simps) (simp add: Let_def)
      with ih le False show ?thesis by (auto intro: segs_ok_Cons)
    qed
  qed
qed

lemma getParagraphs_from_ok: "segs_ok t pos (getParagraphs_from t pos)"
proof (induction t pos rule: getParagraphs_from.induct)
  case (1 t pos)
  show ?case
  proof (cases "pos < length t")
    case False
    then show ?thesis by (subst getParagraphs_from.simps) (simp add: segs_ok_def)
  next
    case True
    let ?nd = "indexOf t [CHR 0x0A, CHR 0x0A] pos"
    let ?e = "case ?nd of None \<Rightarrow> length t | Some d \<Rightarrow> d"
    let ?pos' = "case ?nd of None \<Rightarrow> length t | Some d \<Rightarrow> d + 2"
    have ih: "segs_ok t ?pos' (getParagraphs_from t ?pos')"
      using "1.IH"[OF True refl refl refl] .
    have le: "?e \<le> ?pos'" "pos \<le> ?pos'"
      using True by (auto simp: indexOf_def split: option.splits)
    show ?thesis
    proof (cases "trim (slice t pos ?e) = []")
      case True
      then have "getParagraphs_from t pos = getParagraphs_from t ?pos'"
        using \<open>pos < length t\<close> by (subst getParagraphs_from.simps) (simp add: Let_def)
      with ih le show ?thesis by (auto intro: segs_ok_mono)
    next
      case False
      then have "getParagraphs_from t pos =
          \<lparr>seg_text = trim (slice t pos ?e), seg_start = pos, seg_end = ?e\<rparr> # getParagraphs_from t ?pos'"
        using \<open>pos < length t\<close> by (subst getParagraphs_from.simps) (simp add: Let_def)
      with ih le False show ?thesis by (auto intro: segs_ok_Cons)
    qed
  qed
qed

lemma text_segments_ok: "segs_ok fullText 0 (text_segments options fullText)"
  by (simp add: text_segments_def getSentences_def getParagraphs_def getSentences_from_ok
      getParagraphs_from_ok)

lemma segs_ok_nth:
  assumes "segs_ok t pos segs" "i < length segs"
  shows "seg_start (segs ! i) < seg_end (segs ! i)"
    and "trim (slice t (seg_start (segs ! i)) (seg_end (segs ! i))) \<noteq> []"
  using assms by (auto simp: segs_ok_def dest: slice_nonblank_less)

lemma segs_ok_order:
  assumes ok: "segs_ok t pos segs" and "i \<le> j" "j < length segs"
  shows "seg_start (segs ! i) \<le> seg_start (segs ! j) \<and> seg_end (segs ! i) \<le> seg_end (segs ! j)"
proof (cases "i = j")
  case True
  then show ?thesis by simp
next
  case False
  with assms have lt: "i < j" by simp
  from ok have "sorted_wrt (\<lambda>a b. seg_end a \<le> seg_start b) segs" by (simp add: segs_ok_def)
  with lt assms(3) have "seg_end (segs ! i) \<le> seg_start (segs ! j)"
    by (simp add: sorted_wrt_iff_nth_less)
  moreover have "seg_start (segs ! i) < seg_end (segs ! i)" "seg_start (segs ! j) < seg_end (segs ! j)"
    using segs_ok_nth(1)[OF ok] lt assms(3) by auto
  ultimately show ?thesis by simp
qed

lemma expanded_range_covers:
  assumes ok: "segs_ok t pos segs" and i: "i < length segs" and w: "0 \<le> w"
  shows "r_start (expanded_range segs w i) \<le> seg_start (segs ! i)
         \<and> seg_end (segs ! i) \<le> r_end (expanded_range segs w i)"
proof -
  let ?lo = "nat (max 0 (int i - w))"
  let ?hi = "nat (min (int (length segs) - 1) (int i + w))"
  have lo: "?lo \<le> i" using w by simp
  have hi: "i \<le> ?hi" "?hi < length segs" using w i by auto
  from segs_ok_order[OF ok lo i] segs_ok_order[OF ok hi]
  show ?thesis by (simp add: expanded_range_def)
qed

lemma expanded_range_nonblank:
  assumes ok: "segs_ok t pos segs" and i: "i < length segs" and w: "0 \<le> w"
  shows "trim (slice t (r_start (expanded_range segs w i)) (r_end (expanded_range segs w i))) \<noteq> []"
  using slice_nonblank_mono[OF segs_ok_nth(2)[OF ok i]] expanded_range_covers[OF ok i w] by blast

lemma collect_hits_expanded:
  assumes "0 \<le> w" "\<forall>i \<in> set idx. i < length segs"
  shows "collect_hits segs trg w idx =
     Inr (map (\<lambda>i. \<lparr>hr_start = r_start (expanded_range segs w i),
                    hr_end = r_end (expanded_range segs w i),
                    hr_trigger = the (first_trigger trg (segs ! i))\<rparr>)
            (filter (\<lambda>i. first_trigger trg (segs ! i) \<noteq> None) idx))"
  using assms(2)
proof (induction idx)
  case Nil
  then show ?case by simp
next
  case (Cons i idx)
  then have i: "i < length segs" by simp
  have lo: "seg_at segs (max 0 (int i - w)) = Some (segs ! nat (max 0 (int i - w)))"
    using i assms(1) by (auto simp: seg_at_def)
  have hi: "seg_at segs (min (int (length segs) - 1) (int i + w))
      = Some (segs ! nat (min (int (length segs) - 1) (int i + w)))"
    using i assms(1) by (auto simp: seg_at_def)
  show ?case using Cons lo hi
    by (auto simp: Let_def expanded_range_def split: option.splits)
qed

lemma hit_ranges_expanded:
  assumes "0 \<le> w"
  shows "collect_hits segs trg w [0 ..< length segs] = Inr hits \<Longrightarrow>
     map (\<lambda>r. \<lparr>r_start = hr_start r, r_end = hr_end r\<rparr>) hits
       = map (expanded_range segs w) (trigger_indices segs trg)"
  using collect_hits_expanded[OF assms, of "[0 ..< length segs]" segs trg]
  by (auto simp: trigger_indices_def comp_def)

lemma merge_loop_cover:
  "sorted (map r_start (lst # rest)) \<Longrightarrow>
     \<forall>r \<in> set (lst # rest). \<exists>m \<in> set (merge_loop lst rest). r_start m \<le> r_start r \<and> r_end r \<le> r_end m"
proof (induction rest arbitrary: lst)
  case Nil
  then show ?case by simp
next
  case (Cons cur rest)
  show ?case
  proof (cases "r_start cur \<le> r_end lst + 1")
    case True
    let ?l = "lst\<lparr>r_end := max (r_end lst) (r_end cur)\<rparr>"
    from Cons.prems have s: "sorted (map r_start (?l # rest))" and le: "r_start lst \<le> r_start cur" by auto
    from Cons.IH[OF s] obtain m where m: "m \<in> set (merge_loop ?l rest)"
      "r_start m \<le> r_start ?l" "r_end ?l \<le> r_end m" by auto
    have rest: "\<forall>r \<in> set rest. \<exists>m \<in> set (merge_loop ?l rest). r_start m \<le> r_start r \<and> r_end r \<le> r_end m"
      using Cons.IH[OF s] by simp
    have "\<exists>m \<in> set (merge_loop ?l rest). r_start m \<le> r_start lst \<and> r_end lst \<le> r_end m"
      using m by (intro bexI[of _ m]) auto
    moreover have "\<exists>m \<in> set (merge_loop ?l rest). r_start m \<le> r_start cur \<and> r_end cur \<le> r_end m"
      using m le by (intro bexI[of _ m]) auto
    ultimately show ?thesis using True rest by simp
  next
    case False
    from Cons.prems have s: "sorted (map r_start (cur # rest))" by auto
    from Cons.IH[OF s] show ?thesis using False by auto
  qed
qed

lemma mergeRanges_cover:
  assumes "r \<in> set ranges"
  shows "\<exists>m \<in> set (mergeRanges ranges). r_start m \<le> r_start r \<and> r_end r \<le> r_end m"
proof (cases "sort_key r_start ranges")
  case Nil
  then have "ranges = []" by (metis length_sort list.size(3) length_0_conv)
  with assms show ?thesis by simp
next
  case (Cons first rest)
  have "sorted (map r_start (sort_key r_start ranges))" by (rule sorted_sort_key)
  with Cons have s: "sorted (map r_start (first # rest))" by simp
  have "r \<in> set (first # rest)" using assms Cons by (metis set_sort)
  with merge_loop_cover[OF s]
  have "\<exists>m \<in> set (merge_loop first rest). r_start m \<le> r_start r \<and> r_end r \<le> r_end m"
    by blast
  then show ?thesis using Cons by (simp add: mergeRanges_def)
qed

lemma chain_inv_self: "r \<in> S \<Longrightarrow> r_start r \<le> r_end r \<Longrightarrow> chain_inv S r"
  by (auto simp: chain_inv_def dense_in_def)

lemma chain_inv_extend:
  assumes inv: "chain_inv S lst" and cur: "cur \<in> S" and wf: "\<forall>r \<in> S. r_start r \<le> r_end r"
    and le: "r_start lst \<le> r_start cur" and adj: "r_start cur \<le> r_end lst + 1"
  shows "chain_inv S (lst\<lparr>r_end := max (r_end lst) (r_end cur)\<rparr>)"
proof -
  let ?l = "lst\<lparr>r_end := max (r_end lst) (r_end cur)\<rparr>"
  from inv obtain r0 where r0: "r0 \<in> S" "r_start lst \<le> r_start r0" "r_end r0 = r_end lst"
    by (auto simp: chain_inv_def)
  from wf r0(1) have r0wf: "r_start r0 \<le> r_end r0" by blast
  have endw: "\<exists>r \<in> S. r_start ?l \<le> r_start r \<and> r_end r = r_end ?l"
  proof (cases "r_end lst \<le> r_end cur")
    case True
    then show ?thesis using cur le by (intro bexI[of _ cur]) (auto simp: max_def)
  next
    case False
    then show ?thesis using r0 by (intro bexI[of _ r0]) (auto simp: max_def)
  qed
  have "\<exists>r \<in> S. r_start ?l \<le> r_start r \<and> r_end r \<le> r_end ?l \<and> r_start r \<le> x \<and> x \<le> r_end r"
    if x: "r_start ?l \<le> x" "x < r_end ?l" for x
  proof (cases "x < r_end lst")
    case True
    with inv x obtain r where "r \<in> S" "r_start lst \<le> r_start r" "r_end r \<le> r_end lst"
      "r_start r \<le> x" "x \<le> r_end r"
      by (auto simp: chain_inv_def dense_in_def)
    then show ?thesis by (intro bexI[of _ r]) auto
  next
    case False
    then have ge: "r_end lst \<le> x" by simp
    with x have xc: "x < r_end cur" by (auto simp: max_def split: if_splits)
    show ?thesis
    proof (cases "r_start cur \<le> x")
      case True
      then show ?thesis using cur le xc by (intro bexI[of _ cur]) auto
    next
      case False
      with adj ge have "x = r_end lst" by simp
      then have "r_start ?l \<le> r_start r0 \<and> r_end r0 \<le> r_end ?l \<and> r_start r0 \<le> x \<and> x \<le> r_end r0"
        using r0 r0wf by simp
      with r0(1) show ?thesis by blast
    qed
  qed
  then show ?thesis using endw by (simp add: chain_inv_def dense_in_def)
qed

lemma merge_loop_dense:
  assumes wf: "\<forall>r \<in> S. r_start r \<le> r_end r"
  shows "chain_inv S lst \<Longrightarrow> set rest \<subseteq> S \<Longrightarrow> sorted (map r_start (lst # rest)) \<Longrightarrow>
     \<forall>m \<in> set (merge_loop lst rest). dense_in S m"
proof (induction rest arbitrary: lst)
  case Nil
  then show ?case by (simp add: chain_inv_def)
next
  case (Cons cur rest)
  from Cons.prems have cur: "cur \<in> S" and rest: "set rest \<subseteq> S"
    and le: "r_start lst \<le> r_start cur" and s: "sorted (map r_start (cur # rest))" by auto
  show ?case
  proof (cases "r_start cur \<le> r_end lst + 1")
    case True
    let ?l = "lst\<lparr>r_end := max (r_end lst) (r_end cur)\<rparr>"
    have inv: "chain_inv S ?l" by (rule chain_inv_extend[OF Cons.prems(1) cur wf le True])
    have s': "sorted (map r_start (?l # rest))" using Cons.prems(3) by auto
    from Cons.IH[OF inv rest s'] show ?thesis using True by simp
  next
    case False
    have inv: "chain_inv S cur" using cur wf by (auto intro: chain_inv_self)
    from Cons.IH[OF inv rest s] Cons.prems(1) show ?thesis using False by (simp add: chain_inv_def)
  qed
qed

lemma mergeRanges_dense:
  assumes wf: "\<forall>r \<in> set ranges. r_start r \<le> r_end r" and m: "m \<in> set (mergeRanges ranges)"
  shows "dense_in (set ranges) m"
proof (cases "sort_key r_start ranges")
  case Nil
  with m show ?thesis by (simp add: mergeRanges_def)
next
  case (Cons first rest)
  have "sorted (map r_start (sort_key r_start ranges))" by (rule sorted_sort_key)
  with Cons have s: "sorted (map r_start (first # rest))" by simp
  have sub: "set (first # rest) = set ranges" using Cons by (metis set_sort)
  then have f: "first \<in> set ranges" and r: "set rest \<subseteq> set ranges" by auto
  have inv: "chain_inv (set ranges) first" using f wf by (auto intro: chain_inv_self)
  from merge_loop_dense[OF wf inv r s] m Cons show ?thesis by (simp add: mergeRanges_def)
qed

lemma merge_loop_separated:
  "sorted (map r_start (lst # rest)) \<Longrightarrow>
     sorted_wrt (\<lambda>a b. r_end a + 1 < r_start b) (merge_loop lst rest)
     \<and> (\<forall>q \<in> set (merge_loop lst rest). r_start lst \<le> r_start q)"
proof (induction rest arbitrary: lst)
  case Nil
  then show ?case by simp
next
  case (Cons cur rest)
  show ?case
  proof (cases "r_start cur \<le> r_end lst + 1")
    case True
    let ?l = "lst\<lparr>r_end := max (r_end lst) (r_end cur)\<rparr>"
    from Cons.prems have "sorted (map r_start (?l # rest))" by auto
    from Cons.IH[OF this] show ?thesis using True by simp
  next
    case False
    from Cons.prems have "sorted (map r_start (cur # rest))" and le: "r_start lst \<le> r_start cur"
      by auto
    from Cons.IH[OF this(1)] show ?thesis using False le by fastforce
  qed
qed

lemma mergeRanges_separated:
  "sorted_wrt (\<lambda>a b. r_end a + 1 < r_start b) (mergeRanges ranges)"
proof (cases "sort_key r_start ranges")
  case Nil
  then show ?thesis by (simp add: mergeRanges_def)
next
  case (Cons first rest)
  have "sorted (map r_start (sort_key r_start ranges))" by (rule sorted_sort_key)
  with Cons have "sorted (map r_start (first # rest))" by simp
  from merge_loop_separated[OF this] show ?thesis using Cons by (simp add: mergeRanges_def)
qed

lemma mk_passage_Some:
  "mk_passage fullText subjectId hits triggers r = Some p \<Longrightarrow>
     ep_start p = r_start r \<and> ep_end p = r_end r \<and> r_start r < r_end r"
  by (cases "r_start r < r_end r")
     (auto simp: mk_passage_def Let_def slice_def trim_def split: if_splits)

lemma map_filter_mem:
  "q \<in> set (List.map_filter f rs) \<Longrightarrow> \<exists>x \<in> set rs. f x = Some q"
  by (induction rs) (auto simp: map_filter_simps split: option.splits)

lemma map_filter_separated:
  assumes "sorted_wrt (\<lambda>a b. r_end a + 1 < r_start b) rs"
  shows "sorted_wrt (\<lambda>p q. ep_end p + 1 < ep_start q)
           (List.map_filter (mk_passage fullText subjectId hits triggers) rs)"
  using assms
proof (induction rs)
  case Nil
  then show ?case by (simp add: map_filter_simps)
next
  case (Cons r rs)
  show ?case
  proof (cases "mk_passage fullText subjectId hits triggers r")
    case None
    then show ?thesis using Cons by (simp add: map_filter_simps)
  next
    case (Some y)
    have "ep_end y + 1 < ep_start q"
      if "q \<in> set (List.map_filter (mk_passage fullText subjectId hits triggers) rs)" for q
    proof -
      from map_filter_mem[OF that] obtain x where x: "x \<in> set rs"
        and q: "mk_passage fullText subjectId hits triggers x = Some q" by blast
      from Cons.prems x have "r_end r + 1 < r_start x" by auto
      then show ?thesis using mk_passage_Some[OF Some] mk_passage_Some[OF q] by simp
    qed
    then show ?thesis using Some Cons by (simp add: map_filter_simps)
  qed
qed

lemma map_filter_nonempty:
  "p \<in> set (List.map_filter (mk_passage fullText subjectId hits triggers) rs) \<Longrightarrow>
     ep_start p < ep_end p"
  using map_filter_mem mk_passage_Some by fastforce

lemma mk_passage_nonblank:
  "trim (slice fullText (r_start r) (r_end r)) \<noteq> [] \<Longrightarrow>
     \<exists>p. mk_passage fullText subjectId hits triggers r = Some p"
  by (simp add: mk_passage_def Let_def)

lemma map_filter_intro:
  "x \<in> set rs \<Longrightarrow> f x = Some q \<Longrightarrow> q \<in> set (List.map_filter f rs)"
  by (induction rs) (auto simp: map_filter_simps split: option.splits)

lemma passages_of_hits:
  fixes fullText subjectId options triggers
  defines "segs \<equiv> text_segments options fullText"
  defines "w \<equiv> window_of options"
  assumes own: "subject_triggers subjectId = OwnTriggers triggers"
    and w: "0 \<le> w"
    and res: "extractPassagesForSubject fullText subjectId options = Inr ps"
  shows "(\<forall>i \<in> set (trigger_indices segs triggers).
            \<exists>p \<in> set ps. ep_start p \<le> r_start (expanded_range segs w i)
                         \<and> r_end (expanded_range segs w i) \<le> ep_end p)
       \<and> (\<forall>p \<in> set ps. \<forall>x. ep_start p \<le> x \<and> x < ep_end p \<longrightarrow>
            (\<exists>i \<in> set (trigger_indices segs triggers).
                ep_start p \<le> r_start (expanded_range segs w i)
                \<and> r_end (expanded_range segs w i) \<le> ep_end p
                \<and> r_start (expanded_range segs w i) \<le> x \<and> x \<le> r_end (expanded_range segs w i)))"
proof (cases "triggers = []")
  case True
  then have "trigger_indices segs triggers = []"
    by (simp add: trigger_indices_def first_trigger_def)
  moreover have "ps = []"
    using res own True by (simp add: extractPassagesForSubject_def Let_def)
  ultimately show ?thesis by simp
next
  case False
  let ?E = "expanded_range segs w"
  let ?T = "trigger_indices segs triggers"
  have ok: "segs_ok fullText 0 segs" unfolding segs_def by (rule text_segments_ok)
  obtain hits where hits: "collect_hits segs triggers w [0 ..< length segs] = Inr hits"
    using collect_hits_expanded[OF w, of "[0 ..< length segs]" segs triggers] by auto
  let ?R = "map (\<lambda>r. \<lparr>r_start = hr_start r, r_end = hr_end r\<rparr>) hits"
  have R: "?R = map ?E ?T" by (rule hit_ranges_expanded[OF w hits])
  have ps: "ps = List.map_filter (mk_passage fullText subjectId hits triggers) (mergeRanges ?R)"
    using res own False hits
    by (simp add: extractPassagesForSubject_def Let_def segs_def[symmetric] w_def[symmetric])
  have Ti: "i < length segs" if "i \<in> set ?T" for i
    using that by (simp add: trigger_indices_def)
  have wf: "\<forall>r \<in> set ?R. r_start r \<le> r_end r"
  proof
    fix r assume "r \<in> set ?R"
    then obtain i where i: "i \<in> set ?T" and r: "r = ?E i" unfolding R by auto
    from expanded_range_covers[OF ok Ti[OF i] w] segs_ok_nth(1)[OF ok Ti[OF i]]
    show "r_start r \<le> r_end r" unfolding r by simp
  qed
  have cover: "\<exists>p \<in> set ps. ep_start p \<le> r_start (?E i) \<and> r_end (?E i) \<le> ep_end p"
    if i: "i \<in> set ?T" for i
  proof -
    have "?E i \<in> set ?R" unfolding R using i by simp
    from mergeRanges_cover[OF this] obtain m where m: "m \<in> set (mergeRanges ?R)"
      "r_start m \<le> r_start (?E i)" "r_end (?E i) \<le> r_end m" by blast
    have "trim (slice fullText (r_start m) (r_end m)) \<noteq> []"
      using slice_nonblank_mono[OF expanded_range_nonblank[OF ok Ti[OF i] w] m(2) m(3)] .
    from mk_passage_nonblank[OF this] obtain p
      where p: "mk_passage fullText subjectId hits triggers m = Some p" by blast
    have mem: "p \<in> set ps" unfolding ps using m(1) p by (rule map_filter_intro)
    have "ep_start p = r_start m" "ep_end p = r_end m"
      using mk_passage_Some[OF p] by simp_all
    with m(2,3) have "ep_start p \<le> r_start (?E i) \<and> r_end (?E i) \<le> ep_end p" by simp
    with mem show ?thesis by blast
  qed
  have dense: "\<exists>i \<in> set ?T. ep_start p \<le> r_start (?E i) \<and> r_end (?E i) \<le> ep_end p
                \<and> r_start (?E i) \<le> x \<and> x \<le> r_end (?E i)"
    if p: "p \<in> set ps" and x: "ep_start p \<le> x" "x < ep_end p" for p x
  proof -
    from p obtain m where m: "m \<in> set (mergeRanges ?R)"
      and mp: "mk_passage fullText subjectId hits triggers m = Some p"
      unfolding ps using map_filter_mem by fastforce
    have eq: "ep_start p = r_start m" "ep_end p = r_end m"
      using mk_passage_Some[OF mp] by simp_all
    from mergeRanges_dense[OF wf m] x obtain r where r: "r \<in> set ?R"
      "r_start m \<le> r_start r" "r_end r \<le> r_end m" "r_start r \<le> x" "x \<le> r_end r"
      unfolding dense_in_def eq by blast
    from r(1) obtain i where i: "i \<in> set ?T" and ri: "r = ?E i" unfolding R by auto
    show ?thesis using i r(2-5) unfolding ri eq by blast
  qed
  show ?thesis using cover dense by blast
qed

text \<open>
  C9. For every text, subject id and options, \<open>extractPassagesForSubject\<close> returns a list of
  passages unless the window is negative (a segment index can then fall outside the
  segments) or the subject id names a member that the table of triggers inherits, which is
  not iterable; in these cases the call can throw. Of the returned passages,
  \<^item> each has a non-empty character range;
  \<^item> of any two, the later one starts more than one character after the earlier one ends:
    the ranges are in ascending order, more than one character apart, and no character
    position lies in two of them;
  \<^item> for a window that is not negative, the expanded range of every segment that contains
    a trigger lies within one passage, and every position of a passage lies in, or right
    after, such an expanded range within that passage: a passage is the span of expanded
    ranges that overlap or lie at most one character apart, and none of them is left out.
\<close>

theorem passages_merged_and_separated:
  "(case extractPassagesForSubject fullText subjectId options of
      Inl e \<Rightarrow> window_of options < 0 \<or> (\<exists>len. subject_triggers subjectId = Inherited len)
    | Inr ps \<Rightarrow>
        (\<forall>p \<in> set ps. ep_start p < ep_end p)
      \<and> (\<forall>i j. i < j \<and> j < length ps \<longrightarrow>
           ep_end (ps ! i) + 1 < ep_start (ps ! j) \<and>
           ep_start (ps ! i) < ep_start (ps ! j) \<and>
           {ep_start (ps ! i) ..< ep_end (ps ! i)} \<inter> {ep_start (ps ! j) ..< ep_end (ps ! j)} = {})
      \<and> (\<forall>triggers. subject_triggers subjectId = OwnTriggers triggers \<and> 0 \<le> window_of options \<longrightarrow>
           (\<forall>i \<in> set (trigger_indices (text_segments options fullText) triggers).
              \<exists>p \<in> set ps.
                ep_start p \<le> r_start (expanded_range (text_segments options fullText) (window_of options) i)
                \<and> r_end (expanded_range (text_segments options fullText) (window_of options) i) \<le> ep_end p)
         \<and> (\<forall>p \<in> set ps. \<forall>x. ep_start p \<le> x \<and> x < ep_end p \<longrightarrow>
              (\<exists>i \<in> set (trigger_indices (text_segments options fullText) triggers).
                 ep_start p \<le> r_start (expanded_range (text_segments options fullText) (window_of options) i)
                 \<and> r_end (expanded_range (text_segments options fullText) (window_of options) i) \<le> ep_end p
                 \<and> r_start (expanded_range (text_segments options fullText) (window_of options) i) \<le> x
                 \<and> x \<le> r_end (expanded_range (text_segments options fullText) (window_of options) i)))))"
proof (cases "extractPassagesForSubject fullText subjectId options")
  case (Inl e)
  have "window_of options < 0 \<or> (\<exists>len. subject_triggers subjectId = Inherited len)"
  proof (rule ccontr)
    assume "\<not> ?thesis"
    then have w: "0 \<le> window_of options"
      and own: "\<exists>triggers. subject_triggers subjectId = OwnTriggers triggers"
      by (auto intro: table_member.exhaust[of "subject_triggers subjectId"])
    from own obtain triggers where t: "subject_triggers subjectId = OwnTriggers triggers" ..
    have "\<exists>hits. collect_hits segs triggers (window_of options) [0 ..< length segs] = Inr hits" for segs
      using collect_hits_expanded[OF w, of "[0 ..< length segs]" segs triggers] by auto
    then have "\<exists>ps. extractPassagesForSubject fullText subjectId options = Inr ps"
      unfolding extractPassagesForSubject_def Let_def t
      by (auto split: sum.splits) (metis sum.distinct(1))+
    with Inl show False by simp
  qed
  then show ?thesis using Inl by simp
next
  case (Inr ps)
  have "ps = [] \<or> (\<exists>hits triggers rs.
      ps = List.map_filter (mk_passage fullText subjectId hits triggers) (mergeRanges rs))"
    using Inr unfolding extractPassagesForSubject_def Let_def
    by (auto split: if_splits sum.splits table_member.splits)
  then have sep: "sorted_wrt (\<lambda>p q. ep_end p + 1 < ep_start q) ps"
    and ne: "\<forall>p \<in> set ps. ep_start p < ep_end p"
    using map_filter_separated[OF mergeRanges_separated] map_filter_nonempty by auto
  have pair: "ep_end (ps ! i) + 1 < ep_start (ps ! j) \<and>
        ep_start (ps ! i) < ep_start (ps ! j) \<and>
        {ep_start (ps ! i) ..< ep_end (ps ! i)} \<inter> {ep_start (ps ! j) ..< ep_end (ps ! j)} = {}"
    if "i < j" "j < length ps" for i j
  proof -
    have "ep_end (ps ! i) + 1 < ep_start (ps ! j)"
      using sep that by (simp add: sorted_wrt_iff_nth_less)
    moreover have "ep_start (ps ! i) < ep_end (ps ! i)"
      using ne that by simp
    ultimately show ?thesis by auto
  qed
  have hits: "(\<forall>i \<in> set (trigger_indices (text_segments options fullText) triggers).
              \<exists>p \<in> set ps.
                ep_start p \<le> r_start (expanded_range (text_segments options fullText) (window_of options) i)
                \<and> r_end (expanded_range (text_segments options fullText) (window_of options) i) \<le> ep_end p)
         \<and> (\<forall>p \<in> set ps. \<forall>x. ep_start p \<le> x \<and> x < ep_end p \<longrightarrow>
              (\<exists>i \<in> set (trigger_indices (text_segments options fullText) triggers).
                 ep_start p \<le> r_start (expanded_range (text_segments options fullText) (window_of options) i)
                 \<and> r_end (expanded_range (text_segments options fullText) (window_of options) i) \<le> ep_end p
                 \<and> r_start (expanded_range (text_segments options fullText) (window_of options) i) \<le> x
                 \<and> x \<le> r_end (expanded_range (text_segments options fullText) (window_of options) i)))"
    if "subject_triggers subjectId = OwnTriggers triggers" "0 \<le> window_of options" for triggers
    using passages_of_hits[OF that Inr] .
  show ?thesis unfolding Inr sum.case using ne pair hits by blast
qed

text \<open>
  An instance with a merge. With window 1, the segments 1, 2 and 7 of the text contain a
  trigger; the expanded ranges of the first two overlap and become the passage [0, 67),
  the third is the passage [93, 137). For the subject id \<open>constructor\<close> the call
  throws, for \<open>toString\<close> it returns no passage.
\<close>

theorem passages_merged_and_separated_witness:
  "extractPassagesForSubject
      ''Intro here. Small boats arrived. Migrants were rescued. Filler one. Filler two. Filler three. Filler four. The asylum system. Outro text.''
      ''small_boats''
      \<lparr>opt_sentenceWindow = Some 1, opt_useParagraphs = None, opt_maxCharsPerSubject = None\<rparr>
    = Inr [\<lparr>ep_start = 0, ep_end = 67,
            ep_text = ''Intro here. Small boats arrived. Migrants were rescued. Filler one.'',
            ep_triggerMatched = ''small boat'', ep_subjectId = ''small_boats''\<rparr>,
           \<lparr>ep_start = 93, ep_end = 137, ep_text = ''Filler four. The asylum system. Outro text.'',
            ep_triggerMatched = ''asylum'', ep_subjectId = ''small_boats''\<rparr>]
   \<and> map (expanded_range
        (text_segments
          \<lparr>opt_sentenceWindow = Some 1, opt_useParagraphs = None, opt_maxCharsPerSubject = None\<rparr>
          ''Intro here. Small boats arrived. Migrants were rescued. Filler one. Filler two. Filler three. Filler four. The asylum system. Outro text.'')
        1) [1, 2, 7]
     = [\<lparr>r_start = 0, r_end = 55\<rparr>, \<lparr>r_start = 11, r_end = 67\<rparr>, \<lparr>r_start = 93, r_end = 137\<rparr>]
   \<and> ep_end \<lparr>ep_start = 0, ep_end = 67,
            ep_text = ''Intro here. Small boats arrived. Migrants were rescued. Filler one.'',
            ep_triggerMatched = ''small boat'', ep_subjectId = ''small_boats''\<rparr> + 1
     < ep_start \<lparr>ep_start = 93, ep_end = 137, ep_text = ''Filler four. The asylum system. Outro text.'',
            ep_triggerMatched = ''asylum'', ep_subjectId = ''small_boats''\<rparr>
   \<and> (\<exists>p \<in> set [\<lparr>ep_start = 0, ep_end = 67,
            ep_text = ''Intro here. Small boats arrived. Migrants were rescued. Filler one.'',
            ep_triggerMatched = ''small boat'', ep_subjectId = ''small_boats''\<rparr>,
           \<lparr>ep_start = 93, ep_end = 137, ep_text = ''Filler four. The asylum system. Outro text.'',
            ep_triggerMatched = ''asylum'', ep_subjectId = ''small_boats''\<rparr>].
         ep_start p \<le> 11 \<and> 67 \<le> ep_end p)
   \<and> extractPassagesForSubject ''Small boats arrived.'' ''constructor''
        \<lparr>opt_sentenceWindow = None, opt_useParagraphs = None, opt_maxCharsPerSubject = None\<rparr>
      = Inl TypeError
   \<and> extractPassagesForSubject ''Small boats arrived.'' ''toString''
        \<lparr>opt_sentenceWindow = None, opt_useParagraphs = None, opt_maxCharsPerSubject = None\<rparr>
      = Inr []"
proof -
  let ?T = "''Intro here. Small boats arrived. Migrants were rescued. Filler one. Filler two. Filler three. Filler four. The asylum system. Outro text.''"
  let ?O = "\<lparr>opt_sentenceWindow = Some 1, opt_useParagraphs = None, opt_maxCharsPerSubject = None\<rparr>"
  let ?P1 = "\<lparr>ep_start = 0, ep_end = 67,
            ep_text = ''Intro here. Small boats arrived. Migrants were rescued. Filler one.'',
            ep_triggerMatched = ''small boat'', ep_subjectId = ''small_boats''\<rparr>"
  let ?P2 = "\<lparr>ep_start = 93, ep_end = 137, ep_text = ''Filler four. The asylum system. Outro text.'',
            ep_triggerMatched = ''asylum'', ep_subjectId = ''small_boats''\<rparr>"
  let ?TR = "[''small boat'', ''small boats'', ''channel crossing'', ''channel crossings'', ''dinghy'',
           ''dinghies'', ''boats crossing'', ''english channel'', ''crossing the channel'',
           ''irregular crossing'', ''illegal migration'', ''migrant'', ''migrants'', ''asylum'', ''refugee'']"
  have ev: "extractPassagesForSubject ?T ''small_boats'' ?O = Inr [?P1, ?P2]"
    by code_simp
  have own: "subject_triggers ''small_boats'' = OwnTriggers ?TR"
    by (simp add: subject_triggers_def SUBJECT_TRIGGER_PHRASES_def)
  have win: "window_of ?O = 1"
    by (simp add: window_of_def)
  have ti: "trigger_indices (text_segments ?O ?T) ?TR = [1, 2, 7]"
    by code_simp
  have ex: "map (expanded_range (text_segments ?O ?T) 1) [1, 2, 7]
      = [\<lparr>r_start = 0, r_end = 55\<rparr>, \<lparr>r_start = 11, r_end = 67\<rparr>, \<lparr>r_start = 93, r_end = 137\<rparr>]"
    by code_simp
  then have e2: "expanded_range (text_segments ?O ?T) 1 2 = \<lparr>r_start = 11, r_end = 67\<rparr>"
    by simp
  have c: "extractPassagesForSubject ''Small boats arrived.'' ''constructor''
        \<lparr>opt_sentenceWindow = None, opt_useParagraphs = None, opt_maxCharsPerSubject = None\<rparr>
      = Inl TypeError"
    by code_simp
  have t: "extractPassagesForSubject ''Small boats arrived.'' ''toString''
        \<lparr>opt_sentenceWindow = None, opt_useParagraphs = None, opt_maxCharsPerSubject = None\<rparr>
      = Inr []"
    by code_simp
  have "case extractPassagesForSubject ?T ''small_boats'' ?O of
      Inl e \<Rightarrow> window_of ?O < 0 \<or> (\<exists>len. subject_triggers ''small_boats'' = Inherited len)
    | Inr ps \<Rightarrow>
        (\<forall>p \<in> set ps. ep_start p < ep_end p)
      \<and> (\<forall>i j. i < j \<and> j < length ps \<longrightarrow>
           ep_end (ps ! i) + 1 < ep_start (ps ! j) \<and>
           ep_start (ps ! i) < ep_start (ps ! j) \<and>
           {ep_start (ps ! i) ..< ep_end (ps ! i)} \<inter> {ep_start (ps ! j) ..< ep_end (ps ! j)} = {})
      \<and> (\<forall>triggers. subject_triggers ''small_boats'' = OwnTriggers triggers \<and> 0 \<le> window_of ?O \<longrightarrow>
           (\<forall>i \<in> set (trigger_indices (text_segments ?O ?T) triggers).
              \<exists>p \<in> set ps.
                ep_start p \<le> r_start (expanded_range (text_segments ?O ?T) (window_of ?O) i)
                \<and> r_end (expanded_range (text_segments ?O ?T) (window_of ?O) i) \<le> ep_end p)
         \<and> (\<forall>p \<in> set ps. \<forall>x. ep_start p \<le> x \<and> x < ep_end p \<longrightarrow>
              (\<exists>i \<in> set (trigger_indices (text_segments ?O ?T) triggers).
                 ep_start p \<le> r_start (expanded_range (text_segments ?O ?T) (window_of ?O) i)
                 \<and> r_end (expanded_range (text_segments ?O ?T) (window_of ?O) i) \<le> ep_end p
                 \<and> r_start (expanded_range (text_segments ?O ?T) (window_of ?O) i) \<le> x
                 \<and> x \<le> r_end (expanded_range (text_segments ?O ?T) (window_of ?O) i))))"
    by (rule passages_merged_and_separated)
  then have inst:
     "(\<forall>i j. i < j \<and> j < length [?P1, ?P2] \<longrightarrow>
           ep_end ([?P1, ?P2] ! i) + 1 < ep_start ([?P1, ?P2] ! j) \<and>
           ep_start ([?P1, ?P2] ! i) < ep_start ([?P1, ?P2] ! j) \<and>
           {ep_start ([?P1, ?P2] ! i) ..< ep_end ([?P1, ?P2] ! i)}
             \<inter> {ep_start ([?P1, ?P2] ! j) ..< ep_end ([?P1, ?P2] ! j)} = {})
      \<and> (\<forall>triggers. subject_triggers ''small_boats'' = OwnTriggers triggers \<and> 0 \<le> window_of ?O \<longrightarrow>
           (\<forall>i \<in> set (trigger_indices (text_segments ?O ?T) triggers).
              \<exists>p \<in> set [?P1, ?P2].
                ep_start p \<le> r_start (expanded_range (text_segments ?O ?T) (window_of ?O) i)
                \<and> r_end (expanded_range (text_segments ?O ?T) (window_of ?O) i) \<le> ep_end p)
         \<and> (\<forall>p \<in> set [?P1, ?P2]. \<forall>x. ep_start p \<le> x \<and> x < ep_end p \<longrightarrow>
              (\<exists>i \<in> set (trigger_indices (text_segments ?O ?T) triggers).
                 ep_start p \<le> r_start (expanded_range (text_segments ?O ?T) (window_of ?O) i)
                 \<and> r_end (expanded_range (text_segments ?O ?T) (window_of ?O) i) \<le> ep_end p
                 \<and> r_start (expanded_range (text_segments ?O ?T) (window_of ?O) i) \<le> x
                 \<and> x \<le> r_end (expanded_range (text_segments ?O ?T) (window_of ?O) i))))"
    unfolding ev sum.case by (rule conjunct2)
  from inst have "(0 :: nat) < 1 \<and> 1 < length [?P1, ?P2] \<longrightarrow>
      ep_end ([?P1, ?P2] ! 0) + 1 < ep_start ([?P1, ?P2] ! 1)"
    by blast
  then have sep: "ep_end ?P1 + 1 < ep_start ?P2"
    by simp
  from inst own win have "\<forall>i \<in> set (trigger_indices (text_segments ?O ?T) ?TR).
      \<exists>p \<in> set [?P1, ?P2].
         ep_start p \<le> r_start (expanded_range (text_segments ?O ?T) 1 i)
         \<and> r_end (expanded_range (text_segments ?O ?T) 1 i) \<le> ep_end p"
    by simp
  then have "\<exists>p \<in> set [?P1, ?P2].
         ep_start p \<le> r_start (expanded_range (text_segments ?O ?T) 1 2)
         \<and> r_end (expanded_range (text_segments ?O ?T) 1 2) \<le> ep_end p"
    unfolding ti by simp
  then have cov: "\<exists>p \<in> set [?P1, ?P2]. ep_start p \<le> 11 \<and> 67 \<le> ep_end p"
    unfolding e2 by simp
  from ev ex sep cov c t show ?thesis by (intro conjI)
qed

end
